theory Spec2Isabelle
  imports Complex_Main "HOL-Library.Log_Nat"
begin

section \<open>Go library functions used by the decoder and the registry\<close>

text \<open>
  Go strings are byte sequences; they are modelled as \<^typ>\<open>string\<close> (a list of 8-bit
  characters).  The functions of this section are the standard-library and third-party
  helpers the repository calls (\<^verbatim>\<open>strings\<close>, \<^verbatim>\<open>strconv\<close>, \<^verbatim>\<open>regexp\<close>, \<^verbatim>\<open>bufio\<close>,
  \<^verbatim>\<open>funk\<close>), written after their documented behaviour.
\<close>

definition CR :: char where "CR = CHR 0x0D"
definition LF :: char where "LF = CHR 0x0A"

text \<open>\<^verbatim>\<open>strings.HasPrefix\<close>, \<^verbatim>\<open>strings.HasSuffix\<close>, \<^verbatim>\<open>strings.TrimPrefix\<close>,
  \<^verbatim>\<open>strings.TrimSuffix\<close>.\<close>

definition HasPrefix :: "string \<Rightarrow> string \<Rightarrow> bool" where
  "HasPrefix s p = (take (length p) s = p)"

definition HasSuffix :: "string \<Rightarrow> string \<Rightarrow> bool" where
  "HasSuffix s p = (length p \<le> length s \<and> drop (length s - length p) s = p)"

definition TrimPrefix :: "string \<Rightarrow> string \<Rightarrow> string" where
  "TrimPrefix s p = (if HasPrefix s p then drop (length p) s else s)"

definition TrimSuffix :: "string \<Rightarrow> string \<Rightarrow> string" where
  "TrimSuffix s p = (if HasSuffix s p then take (length s - length p) s else s)"

text \<open>
  \<^verbatim>\<open>strings.ToLower\<close>.  As in the library, a string of ASCII bytes only (every byte below
  \<^verbatim>\<open>0x80\<close>) is lowercased byte by byte, \<^verbatim>\<open>A-Z\<close> to \<^verbatim>\<open>a-z\<close>; any other string goes
  through \<^verbatim>\<open>strings.Map(unicode.ToLower, s)\<close>, that is through the Unicode case tables of
  the Go runtime.  These tables are no part of the repository: they are the parameter
  \<open>unicodeLower\<close>, about which nothing is assumed.
\<close>

definition isASCII :: "string \<Rightarrow> bool" where
  "isASCII s = list_all (\<lambda>c. \<not> digit7 c) s"

definition lowerChar :: "char \<Rightarrow> char" where
  "lowerChar c =
     (case map_of (zip ''ABCDEFGHIJKLMNOPQRSTUVWXYZ'' ''abcdefghijklmnopqrstuvwxyz'') c of
        Some l \<Rightarrow> l | None \<Rightarrow> c)"

definition ToLower :: "(string \<Rightarrow> string) \<Rightarrow> string \<Rightarrow> string" where
  "ToLower unicodeLower s = (if isASCII s then map lowerChar s else unicodeLower s)"

text \<open>\<^verbatim>\<open>strings.Split(s, sep)\<close> for a one-byte separator: the pieces between the
  separators, of which there is always at least one (the empty string gives one empty
  piece).\<close>

fun Split :: "string \<Rightarrow> char \<Rightarrow> string list" where
  "Split [] sep = [[]]"
| "Split (c # cs) sep =
     (if c = sep then [] # Split cs sep
      else (case Split cs sep of [] \<Rightarrow> [[c]] | w # ws \<Rightarrow> (c # w) # ws))"

text \<open>\<^verbatim>\<open>strconv.Atoi\<close>: an optional sign, then one or more decimal digits and nothing
  else; a value outside the 64-bit range of \<^verbatim>\<open>int\<close> is an error.  \<open>None\<close> is the error
  return.\<close>

definition digitVal :: "char \<Rightarrow> int option" where
  "digitVal c = map_of (zip ''0123456789'' [0, 1, 2, 3, 4, 5, 6, 7, 8, 9]) c"

fun digitsVal :: "int \<Rightarrow> string \<Rightarrow> int option" where
  "digitsVal n [] = Some n"
| "digitsVal n (c # cs) =
     (case digitVal c of None \<Rightarrow> None | Some d \<Rightarrow> digitsVal (n * 10 + d) cs)"

definition inIntRange :: "int \<Rightarrow> int option" where
  "inIntRange n = (if - (2 ^ 63) \<le> n \<and> n \<le> 2 ^ 63 - 1 then Some n else None)"

definition Atoi :: "string \<Rightarrow> int option" where
  "Atoi s =
     (case s of
        [] \<Rightarrow> None
      | c # cs \<Rightarrow>
          if c = CHR ''-'' then
            (if cs = [] then None
             else case digitsVal 0 cs of None \<Rightarrow> None | Some n \<Rightarrow> inIntRange (- n))
          else if c = CHR ''+'' then
            (if cs = [] then None
             else case digitsVal 0 cs of None \<Rightarrow> None | Some n \<Rightarrow> inIntRange n)
          else (case digitsVal 0 s of None \<Rightarrow> None | Some n \<Rightarrow> inIntRange n))"

text \<open>\<^verbatim>\<open>funk.FilterString\<close>, \<^verbatim>\<open>funk.ContainsString\<close> are \<^const>\<open>filter\<close> and list
  membership.  \<^verbatim>\<open>funk.UniqString\<close> keeps the first occurrence of every string.\<close>

fun UniqString :: "string list \<Rightarrow> string list" where
  "UniqString [] = []"
| "UniqString (x # xs) = x # UniqString (filter (\<lambda>y. y \<noteq> x) xs)"

text \<open>\<^verbatim>\<open>bufio.Reader.ReadString('\n')\<close> called again and again on a finite input: every
  piece up to and including a line feed is returned; the bytes left after the last line
  feed end in a read error and are not returned as a line.\<close>

fun ReadStrings :: "string \<Rightarrow> string \<Rightarrow> string list" where
  "ReadStrings acc [] = []"
| "ReadStrings acc (c # cs) =
     (if c = LF then (acc @ [c]) # ReadStrings [] cs else ReadStrings (acc @ [c]) cs)"

subsection \<open>Regular expressions\<close>

text \<open>
  The two patterns of the repository use digits, literal bytes, \<^verbatim>\<open>.\<close> (any character but
  a line feed), sequence, bounded and unbounded repetition, and are anchored at both ends
  (\<^verbatim>\<open>^...$\<close> with no multi-line flag), so \<^verbatim>\<open>MatchString\<close> holds exactly when the whole
  string is in the language.  Matching is by derivatives.
\<close>

datatype cclass = Digit | AnyButLF | Lit char

fun inClass :: "cclass \<Rightarrow> char \<Rightarrow> bool" where
  "inClass Digit c = (c \<in> set ''0123456789'')"
| "inClass AnyButLF c = (c \<noteq> LF)"
| "inClass (Lit a) c = (c = a)"

datatype rx = Nothing | Eps | Sym cclass | Seq rx rx | Alt rx rx | Star rx

fun nullable :: "rx \<Rightarrow> bool" where
  "nullable Nothing = False"
| "nullable Eps = True"
| "nullable (Sym k) = False"
| "nullable (Seq r s) = (nullable r \<and> nullable s)"
| "nullable (Alt r s) = (nullable r \<or> nullable s)"
| "nullable (Star r) = True"

fun deriv :: "char \<Rightarrow> rx \<Rightarrow> rx" where
  "deriv c Nothing = Nothing"
| "deriv c Eps = Nothing"
| "deriv c (Sym k) = (if inClass k c then Eps else Nothing)"
| "deriv c (Seq r s) =
     (if nullable r then Alt (Seq (deriv c r) s) (deriv c s) else Seq (deriv c r) s)"
| "deriv c (Alt r s) = Alt (deriv c r) (deriv c s)"
| "deriv c (Star r) = Seq (deriv c r) (Star r)"

fun MatchString :: "rx \<Rightarrow> string \<Rightarrow> bool" where
  "MatchString r [] = nullable r"
| "MatchString r (c # cs) = MatchString (deriv c r) cs"

definition Opt :: "rx \<Rightarrow> rx" where
  "Opt r = Alt r Eps"

definition Plus :: "rx \<Rightarrow> rx" where
  "Plus r = Seq r (Star r)"

text \<open>\<^verbatim>\<open>\d{1,4}\<close>\<close>

definition digits1to4 :: rx where
  "digits1to4 = Seq (Sym Digit) (Opt (Seq (Sym Digit) (Opt (Seq (Sym Digit) (Opt (Sym Digit))))))"

text \<open>
  A condition on the shape of a pattern under which every string it matches ends in a
  line feed; the flag says whether the empty string may be matched (it may after a line
  feed has been read).  It serves the proof that \<^verbatim>\<open>processLine\<close> sends nothing.
\<close>

fun endsInLF :: "bool \<Rightarrow> rx \<Rightarrow> bool" where
  "endsInLF b Nothing = True"
| "endsInLF b Eps = b"
| "endsInLF b (Sym k) = (k = Lit LF)"
| "endsInLF b (Seq r s) = endsInLF False s"
| "endsInLF b (Alt r s) = (endsInLF b r \<and> endsInLF b s)"
| "endsInLF b (Star r) = False"

section \<open>Floating-point numbers\<close>

text \<open>
  A finite \<^verbatim>\<open>float32\<close> or \<^verbatim>\<open>float64\<close> is modelled by the rational number it stands for.
  Every arithmetic operation of the source is the exact operation followed by IEEE 754
  rounding to nearest, ties to even, into the format of the operation's type: 24
  significant bits and least exponent \<open>-126\<close> for \<^verbatim>\<open>float32\<close>, 53 bits and \<open>-1022\<close> for
  \<^verbatim>\<open>float64\<close>.  A conversion from \<^verbatim>\<open>float32\<close> to \<^verbatim>\<open>float64\<close> is exact.  Infinities and
  NaN are not modelled; no value of the decoder reaches them.
\<close>

type_synonym float32 = rat
type_synonym float64 = rat

definition rne :: "rat \<Rightarrow> int" where
  "rne x = (let f = \<lfloor>x\<rfloor>; d = x - of_int f
            in if d < 1 / 2 then f else if 1 / 2 < d then f + 1
               else if even f then f else f + 1)"

text \<open>\<open>ilog2 x\<close> is \<open>\<lfloor>log\<^sub>2 x\<rfloor>\<close> for a positive \<open>x\<close>.\<close>

definition ilog2 :: "rat \<Rightarrow> int" where
  "ilog2 x = (if 1 \<le> x then bitlen \<lfloor>x\<rfloor> - 1 else - bitlen (\<lceil>1 / x\<rceil> - 1))"

definition pow2 :: "int \<Rightarrow> rat" where
  "pow2 e = (if 0 \<le> e then 2 ^ nat e else 1 / 2 ^ nat (- e))"

definition round_to :: "nat \<Rightarrow> int \<Rightarrow> rat \<Rightarrow> rat" where
  "round_to p emin x =
     (if x = 0 then 0
      else let q = pow2 (max (ilog2 \<bar>x\<bar>) emin - (int p - 1))
           in of_int (rne (x / q)) * q)"

definition f32 :: "rat \<Rightarrow> float32" where
  "f32 = round_to 24 (- 126)"

definition f64 :: "rat \<Rightarrow> float64" where
  "f64 = round_to 53 (- 1022)"

section \<open>util.go\<close>

text \<open>\<^verbatim>\<open>NormalizeScalar(v) = float32(math.Floor(float64(v)*100) / 100.0)\<close>\<close>

definition NormalizeScalar :: "float32 \<Rightarrow> float32" where
  "NormalizeScalar v = f32 (f64 (of_int \<lfloor>f64 (v * 100)\<rfloor> / 100))"

definition getSignificantDifferenceThreshold :: "string \<Rightarrow> float64" where
  "getSignificantDifferenceThreshold noiseReductionLevel =
     (if noiseReductionLevel = ''high'' then f64 (35 / 1000)
      else if noiseReductionLevel = ''low'' then f64 (15 / 1000)
      else f64 (25 / 1000))"

definition almostEquals :: "float32 \<Rightarrow> float32 \<Rightarrow> bool" where
  "almostEquals a b = (\<bar>f32 (a - b)\<bar> < f64 (1 / 1000000))"

definition SignificantlyDifferent :: "float32 \<Rightarrow> float32 \<Rightarrow> string \<Rightarrow> bool" where
  "SignificantlyDifferent old new noiseReductionLevel =
     (let threshold = getSignificantDifferenceThreshold noiseReductionLevel
      in if threshold \<le> \<bar>f32 (old - new)\<bar> then True
         else if (almostEquals new 1 \<and> old \<noteq> 1) \<or> (almostEquals new 0 \<and> old \<noteq> 0) then True
         else False)"

section \<open>serial.go\<close>

record CanonicalConfig =
  InvertSliders :: bool
  NoiseReductionLevel :: string

record SerialIO =
  connected :: bool
  lastKnownNumSliders :: int
  currentSliderPercentValues :: "float32 list"

record SliderMoveEvent =
  SliderID :: int
  PercentValue :: float32

datatype panic = IndexOutOfRange

text \<open>\<^verbatim>\<open>^\d{1,4}(\|\d{1,4})*\r\n$\<close>\<close>

definition expectedLinePattern :: rx where
  "expectedLinePattern =
     Seq digits1to4
       (Seq (Star (Seq (Sym (Lit (CHR ''|''))) digits1to4))
            (Seq (Sym (Lit CR)) (Sym (Lit LF))))"

text \<open>
  The loop over the fields of \<^verbatim>\<open>processLine\<close>.  It carries the cache of last-known
  values, which the source updates in place, and the events gathered so far.  The second
  component of the result is \<open>None\<close> when the loop leaves \<^verbatim>\<open>processLine\<close> at an invalid
  field: the cache keeps what was written before, the gathered events are dropped.
  Reading the cache outside its bounds is Go's run-time panic.
\<close>

fun fieldsLoop ::
  "CanonicalConfig \<Rightarrow> nat \<Rightarrow> string list \<Rightarrow> float32 list \<Rightarrow> SliderMoveEvent list \<Rightarrow>
   panic + (float32 list \<times> SliderMoveEvent list option)" where
  "fieldsLoop cfg i [] cur events = Inr (cur, Some events)"
| "fieldsLoop cfg i (val # vals) cur events =
     (case Atoi val of
        None \<Rightarrow> Inr (cur, None)
      | Some rawValue \<Rightarrow>
          if rawValue > 1023 then Inr (cur, None)
          else
            let scaledValue = NormalizeScalar (f32 (f32 (of_int rawValue) / 1023));
                scaledValue = (if InvertSliders cfg then f32 (1 - scaledValue) else scaledValue)
            in if length cur \<le> i then Inl IndexOutOfRange
               else if SignificantlyDifferent (cur ! i) scaledValue (NoiseReductionLevel cfg)
               then fieldsLoop cfg (Suc i) vals (cur[i := scaledValue])
                      (events @ [\<lparr>SliderID = int i, PercentValue = scaledValue\<rparr>])
               else fieldsLoop cfg (Suc i) vals cur events)"

text \<open>\<^verbatim>\<open>processLine\<close> returns the decoder's new state and the events it sends, in order,
  to every subscribed consumer.\<close>

definition processLine ::
  "CanonicalConfig \<Rightarrow> SerialIO \<Rightarrow> string \<Rightarrow> panic + (SerialIO \<times> SliderMoveEvent list)" where
  "processLine cfg sio line =
     (if \<not> MatchString expectedLinePattern line then Inr (sio, [])
      else
        let values = Split line (CHR ''|'');
            numSliders = length values;
            sio = (if int numSliders \<noteq> lastKnownNumSliders sio
                   then sio\<lparr>lastKnownNumSliders := int numSliders,
                            currentSliderPercentValues := replicate numSliders (- 1)\<rparr>
                   else sio)
        in case fieldsLoop cfg 0 values (currentSliderPercentValues sio) [] of
             Inl p \<Rightarrow> Inl p
           | Inr (cur, None) \<Rightarrow> Inr (sio\<lparr>currentSliderPercentValues := cur\<rparr>, [])
           | Inr (cur, Some events) \<Rightarrow> Inr (sio\<lparr>currentSliderPercentValues := cur\<rparr>, events))"

definition closeConnection :: "SerialIO \<Rightarrow> SerialIO" where
  "closeConnection sio = sio\<lparr>connected := False\<rparr>"

text \<open>
  \<^verbatim>\<open>readLoop\<close> with no stop request, on the lines \<^verbatim>\<open>ReadString\<close> delivers: each line has
  its \<^verbatim>\<open>"\r\n"\<close> suffix trimmed and is handed to \<^verbatim>\<open>processLine\<close>; the read error at the
  end of the input closes the connection.
\<close>

fun linesLoop ::
  "CanonicalConfig \<Rightarrow> SerialIO \<Rightarrow> string list \<Rightarrow> SliderMoveEvent list \<Rightarrow>
   panic + (SerialIO \<times> SliderMoveEvent list)" where
  "linesLoop cfg sio [] sent = Inr (closeConnection sio, sent)"
| "linesLoop cfg sio (line # rest) sent =
     (case processLine cfg sio (TrimSuffix line [CR, LF]) of
        Inl p \<Rightarrow> Inl p
      | Inr (sio', events) \<Rightarrow> linesLoop cfg sio' rest (sent @ events))"

definition readLoop ::
  "CanonicalConfig \<Rightarrow> SerialIO \<Rightarrow> string \<Rightarrow> panic + (SerialIO \<times> SliderMoveEvent list)" where
  "readLoop cfg sio input = linesLoop cfg sio (ReadStrings [] input) []"

text \<open>
  The decoder after \<^verbatim>\<open>NewSerialIO\<close> and \<^verbatim>\<open>Start\<close>: connected, no slider seen, no cache.
  The configuration of the examples: no inversion, noise level \<^verbatim>\<open>default\<close>.  The input
  lines of the examples: \<^verbatim>\<open>"512|1023\r\n"\<close> and \<^verbatim>\<open>"512|2000\r\n"\<close>.
\<close>

definition startedSerialIO :: SerialIO where
  "startedSerialIO =
     \<lparr>connected = True, lastKnownNumSliders = 0, currentSliderPercentValues = []\<rparr>"

definition exampleConfig :: CanonicalConfig where
  "exampleConfig = \<lparr>InvertSliders = False, NoiseReductionLevel = ''default''\<rparr>"

definition exampleLine :: string where
  "exampleLine = ''512|1023'' @ [CR, LF]"

definition invalidFieldLine :: string where
  "invalidFieldLine = ''512|2000'' @ [CR, LF]"

section \<open>The slider map\<close>

text \<open>
  A Go map has no iteration order.  A map is modelled by an association list with one
  entry for each key; the order of the list is the order in which one run of the program
  happens to iterate.  Theorems quantify over all such lists, hence over every order.
\<close>

type_synonym sliderMap = "(int \<times> string list) list"

definition newSliderMap :: sliderMap where
  "newSliderMap = []"

text \<open>\<^verbatim>\<open>get\<close> returns the value and whether the key is present; an absent key gives the
  nil slice.\<close>

definition sliderMap_get :: "sliderMap \<Rightarrow> int \<Rightarrow> string list \<times> bool" where
  "sliderMap_get mp key = (case map_of mp key of Some v \<Rightarrow> (v, True) | None \<Rightarrow> ([], False))"

fun sliderMap_set :: "sliderMap \<Rightarrow> int \<Rightarrow> string list \<Rightarrow> sliderMap" where
  "sliderMap_set [] key v = [(key, v)]"
| "sliderMap_set ((k, w) # rest) key v =
     (if k = key then (k, v) # rest else (k, w) # sliderMap_set rest key v)"

text \<open>The first loop of \<^verbatim>\<open>sliderMapFromConfigs\<close>, over the user mapping.\<close>

fun userLoop :: "(string \<times> string list) list \<Rightarrow> sliderMap \<Rightarrow> sliderMap" where
  "userLoop [] resultMap = resultMap"
| "userLoop ((sliderIdxString, targets) # rest) resultMap =
     (case Atoi sliderIdxString of
        None \<Rightarrow> userLoop rest resultMap
      | Some sliderIdx \<Rightarrow>
          userLoop rest (sliderMap_set resultMap sliderIdx (filter (\<lambda>s. s \<noteq> []) targets)))"

text \<open>The second loop, over the internal mapping.\<close>

fun internalLoop :: "(string \<times> string list) list \<Rightarrow> sliderMap \<Rightarrow> sliderMap" where
  "internalLoop [] resultMap = resultMap"
| "internalLoop ((sliderIdxString, targets) # rest) resultMap =
     (case Atoi sliderIdxString of
        None \<Rightarrow> internalLoop rest resultMap
      | Some sliderIdx \<Rightarrow>
          let existingTargets = fst (sliderMap_get resultMap sliderIdx);
              filteredTargets = filter (\<lambda>s. s \<noteq> [] \<and> s \<notin> set existingTargets) targets
          in internalLoop rest
               (sliderMap_set resultMap sliderIdx (existingTargets @ filteredTargets)))"

definition sliderMapFromConfigs ::
  "(string \<times> string list) list \<Rightarrow> (string \<times> string list) list \<Rightarrow> sliderMap" where
  "sliderMapFromConfigs userMapping internalMapping =
     internalLoop internalMapping (userLoop userMapping newSliderMap)"

text \<open>
  What the merge is meant to give at one index, in the words of the specification: the
  user's targets without the empty strings, then the internal targets that are neither
  empty nor among the user's.  \<open>parsedEntries\<close> are the entries of a configuration map
  whose key parses as an integer.
\<close>

fun parsedEntries :: "(string \<times> string list) list \<Rightarrow> (int \<times> string list) list" where
  "parsedEntries [] = []"
| "parsedEntries ((k, ts) # rest) =
     (case Atoi k of None \<Rightarrow> parsedEntries rest | Some i \<Rightarrow> (i, ts) # parsedEntries rest)"

definition mergedTargets ::
  "(string \<times> string list) list \<Rightarrow> (string \<times> string list) list \<Rightarrow> int \<Rightarrow> string list option" where
  "mergedTargets userMapping internalMapping i =
     (case (map_of (parsedEntries userMapping) i, map_of (parsedEntries internalMapping) i) of
        (None, None) \<Rightarrow> None
      | (Some us, None) \<Rightarrow> Some (filter (\<lambda>s. s \<noteq> []) us)
      | (None, Some ts) \<Rightarrow> Some (filter (\<lambda>s. s \<noteq> []) ts)
      | (Some us, Some ts) \<Rightarrow>
          Some (filter (\<lambda>s. s \<noteq> []) us @ filter (\<lambda>s. s \<noteq> [] \<and> s \<notin> set us) ts))"

section \<open>config.go\<close>

definition masterSessionName :: string where "masterSessionName = ''master''"
definition systemSessionName :: string where "systemSessionName = ''system''"
definition inputSessionName :: string where "inputSessionName = ''mic''"

definition configKeySliderMapping :: string where
  "configKeySliderMapping = ''slider_mapping''"

definition defaultSliderMapping :: sliderMap where
  "defaultSliderMapping = sliderMap_set newSliderMap 0 [masterSessionName]"

text \<open>
  A \<^verbatim>\<open>viper\<close> instance, as far as its values of type \<^verbatim>\<open>map[string][]string\<close> go: the
  defaults registered with \<^verbatim>\<open>SetDefault\<close> and the values read from the configuration
  file.  \<^verbatim>\<open>GetStringMapStringSlice\<close> gives the file's value, else the default, else the
  empty map.
\<close>

record viper =
  vdefaults :: "string \<rightharpoonup> (string \<times> string list) list"
  vfile :: "string \<rightharpoonup> (string \<times> string list) list"

definition GetStringMapStringSlice :: "viper \<Rightarrow> string \<Rightarrow> (string \<times> string list) list" where
  "GetStringMapStringSlice v key =
     (case vfile v key of
        Some x \<Rightarrow> x
      | None \<Rightarrow> (case vdefaults v key of Some d \<Rightarrow> d | None \<Rightarrow> []))"

definition initializeViper :: "(string \<rightharpoonup> (string \<times> string list) list) \<Rightarrow> viper" where
  "initializeViper defaults = \<lparr>vdefaults = defaults, vfile = Map.empty\<rparr>"

text \<open>\<^verbatim>\<open>initializeViperInstances\<close>: the user configuration and the internal one.\<close>

definition initializeViperInstances :: "viper \<times> viper" where
  "initializeViperInstances =
     (initializeViper [configKeySliderMapping \<mapsto> []], initializeViper Map.empty)"

text \<open>\<^verbatim>\<open>ReadInConfig\<close>: the values of the file replace what was read before.\<close>

definition ReadInConfig :: "viper \<Rightarrow> (string \<rightharpoonup> (string \<times> string list) list) \<Rightarrow> viper" where
  "ReadInConfig v fileValues = v\<lparr>vfile := fileValues\<rparr>"

text \<open>The \<^verbatim>\<open>SliderMapping\<close> field that \<^verbatim>\<open>populateFromVipers\<close> computes.\<close>

definition populateFromVipers :: "viper \<Rightarrow> viper \<Rightarrow> sliderMap" where
  "populateFromVipers userConfig internalConfig =
     sliderMapFromConfigs
       (GetStringMapStringSlice userConfig configKeySliderMapping)
       (GetStringMapStringSlice internalConfig configKeySliderMapping)"

section \<open>The session map\<close>

text \<open>
  A session is known to the map by its key and its volume.  The Go map \<^verbatim>\<open>m\<close> is an
  association list with one entry for each key, in the order in which the program
  iterates over it.  The map holds, beside the fields of the source, what its
  collaborators have seen of it: the sessions on which \<^verbatim>\<open>Release\<close> has been called, in
  the order of the calls; the warnings its logger has received from the two refresh
  functions; and the number of \<^verbatim>\<open>GetAllSessions\<close> calls made on its session finder.
  Times are in nanoseconds.
\<close>

record Session =
  Key :: string
  Volume :: float32

record sessionMap =
  m_sessions :: "(string \<times> Session list) list"
  lastSessionRefresh :: int
  unmappedSessions :: "Session list"
  released :: "Session list"
  warnings :: "string list"
  finderQueries :: nat

text \<open>What the session map reads from outside itself: the slider mapping of the
  configuration, the answer of \<^verbatim>\<open>util.GetCurrentWindowProcessNames\<close> (\<open>None\<close> is its
  error), and the Unicode case tables that \<^verbatim>\<open>strings.ToLower\<close> consults.\<close>

record deej =
  SliderMapping :: sliderMap
  currentWindowProcessNames :: "string list option"
  unicodeToLower :: "string \<Rightarrow> string"

definition specialTargetTransformPrefix :: string where
  "specialTargetTransformPrefix = ''deej.''"
definition specialTargetCurrentWindow :: string where
  "specialTargetCurrentWindow = ''current''"
definition specialTargetAllUnmapped :: string where
  "specialTargetAllUnmapped = ''unmapped''"

definition minTimeBetweenSessionRefreshes :: int where
  "minTimeBetweenSessionRefreshes = 5 * 1000000000"
definition maxTimeBetweenSessionRefreshes :: int where
  "maxTimeBetweenSessionRefreshes = 45 * 1000000000"

text \<open>\<^verbatim>\<open>^.+ \(.+\)$\<close>\<close>

definition deviceSessionKeyPattern :: rx where
  "deviceSessionKeyPattern =
     Seq (Plus (Sym AnyButLF))
       (Seq (Sym (Lit (CHR '' '')))
         (Seq (Sym (Lit (CHR ''('')))
           (Seq (Plus (Sym AnyButLF)) (Sym (Lit (CHR '')''))))))"

text \<open>The assignment \<^verbatim>\<open>m.m[key] = value\<close>.\<close>

fun m_store ::
  "(string \<times> Session list) list \<Rightarrow> string \<Rightarrow> Session list \<Rightarrow> (string \<times> Session list) list" where
  "m_store [] key v = [(key, v)]"
| "m_store ((k, w) # rest) key v =
     (if k = key then (k, v) # rest else (k, w) # m_store rest key v)"

definition sessionMap_add :: "sessionMap \<Rightarrow> Session \<Rightarrow> sessionMap" where
  "sessionMap_add sm v =
     (case map_of (m_sessions sm) (Key v) of
        None \<Rightarrow> sm\<lparr>m_sessions := m_store (m_sessions sm) (Key v) [v]\<rparr>
      | Some vs \<Rightarrow> sm\<lparr>m_sessions := m_store (m_sessions sm) (Key v) (vs @ [v])\<rparr>)"

definition sessionMap_get :: "sessionMap \<Rightarrow> string \<Rightarrow> Session list \<times> bool" where
  "sessionMap_get sm key =
     (case map_of (m_sessions sm) key of Some v \<Rightarrow> (v, True) | None \<Rightarrow> ([], False))"

text \<open>\<^verbatim>\<open>clear\<close> goes through the map: it calls \<^verbatim>\<open>Release\<close> on every session of a key,
  then deletes the key.\<close>

fun clearLoop :: "(string \<times> Session list) list \<Rightarrow> Session list \<Rightarrow> Session list" where
  "clearLoop [] rel = rel"
| "clearLoop ((key, sessions) # rest) rel = clearLoop rest (rel @ sessions)"

definition sessionMap_clear :: "sessionMap \<Rightarrow> sessionMap" where
  "sessionMap_clear sm =
     sm\<lparr>released := clearLoop (m_sessions sm) (released sm), m_sessions := []\<rparr>"

definition targetHasSpecialTransform :: "string \<Rightarrow> bool" where
  "targetHasSpecialTransform target = HasPrefix target specialTargetTransformPrefix"

definition getUnmappedSessionKeys :: "sessionMap \<Rightarrow> string list" where
  "getUnmappedSessionKeys sm = map Key (unmappedSessions sm)"

definition getCurrentWindowProcessNames :: "deej \<Rightarrow> string list" where
  "getCurrentWindowProcessNames d =
     (case currentWindowProcessNames d of
        None \<Rightarrow> []
      | Some names \<Rightarrow> UniqString (map (ToLower (unicodeToLower d)) names))"

definition applyTargetTransform :: "deej \<Rightarrow> sessionMap \<Rightarrow> string \<Rightarrow> string list" where
  "applyTargetTransform d sm specialTargetName =
     (if specialTargetName = specialTargetCurrentWindow then getCurrentWindowProcessNames d
      else if specialTargetName = specialTargetAllUnmapped then getUnmappedSessionKeys sm
      else [])"

definition resolveTarget :: "deej \<Rightarrow> sessionMap \<Rightarrow> string \<Rightarrow> string list" where
  "resolveTarget d sm target =
     (let target = ToLower (unicodeToLower d) target
      in if targetHasSpecialTransform target
         then applyTargetTransform d sm (TrimPrefix target specialTargetTransformPrefix)
         else [target])"

text \<open>
  The closure that \<^verbatim>\<open>sessionMapped\<close> hands to \<^verbatim>\<open>iterate\<close>, on the targets of one slider:
  whether it sets \<^verbatim>\<open>matchFound\<close>.  Taking element 0 of an empty resolution is Go's
  run-time panic.
\<close>

fun targetsLoop :: "deej \<Rightarrow> sessionMap \<Rightarrow> string \<Rightarrow> string list \<Rightarrow> panic + bool" where
  "targetsLoop d sm key [] = Inr False"
| "targetsLoop d sm key (target # targets) =
     (if targetHasSpecialTransform target then targetsLoop d sm key targets
      else (case resolveTarget d sm target of
              [] \<Rightarrow> Inl IndexOutOfRange
            | resolvedTarget # _ \<Rightarrow>
                if resolvedTarget = key then Inr True else targetsLoop d sm key targets))"

text \<open>\<^verbatim>\<open>iterate\<close> with that closure: every slider is visited, \<^verbatim>\<open>matchFound\<close> is carried
  along.\<close>

fun sliderMap_iterate :: "deej \<Rightarrow> sessionMap \<Rightarrow> string \<Rightarrow> sliderMap \<Rightarrow> bool \<Rightarrow> panic + bool" where
  "sliderMap_iterate d sm key [] matchFound = Inr matchFound"
| "sliderMap_iterate d sm key ((sliderIdx, targets) # rest) matchFound =
     (case targetsLoop d sm key targets of
        Inl p \<Rightarrow> Inl p
      | Inr found \<Rightarrow> sliderMap_iterate d sm key rest (matchFound \<or> found))"

definition sessionMapped :: "deej \<Rightarrow> sessionMap \<Rightarrow> Session \<Rightarrow> panic + bool" where
  "sessionMapped d sm session =
     (if Key session \<in> set [masterSessionName, systemSessionName, inputSessionName] then Inr True
      else if MatchString deviceSessionKeyPattern (Key session) then Inr True
      else sliderMap_iterate d sm (Key session) (SliderMapping d) False)"

text \<open>The loop of \<^verbatim>\<open>getAndAddSessions\<close> over the sessions found.  The state comes with
  how the loop ended: normally, or in a panic.\<close>

fun addLoop :: "deej \<Rightarrow> Session list \<Rightarrow> sessionMap \<Rightarrow> sessionMap \<times> (panic + unit)" where
  "addLoop d [] sm = (sm, Inr ())"
| "addLoop d (session # rest) sm =
     (let sm = sessionMap_add sm session
      in case sessionMapped d sm session of
           Inl p \<Rightarrow> (sm, Inl p)
         | Inr True \<Rightarrow> addLoop d rest sm
         | Inr False \<Rightarrow>
             addLoop d rest (sm\<lparr>unmappedSessions := unmappedSessions sm @ [session]\<rparr>))"

text \<open>
  \<^verbatim>\<open>getAndAddSessions\<close>, at clock reading \<open>now\<close>, when the session finder answers
  \<open>found\<close> (\<open>Inl\<close> its error).  The result is the new state and the returned error
  (\<open>None\<close> is \<^verbatim>\<open>nil\<close>), or a panic.
\<close>

definition getAndAddSessions ::
  "deej \<Rightarrow> int \<Rightarrow> string + Session list \<Rightarrow> sessionMap \<Rightarrow> sessionMap \<times> (panic + string option)" where
  "getAndAddSessions d now found sm =
     (let sm = sm\<lparr>lastSessionRefresh := now, unmappedSessions := [],
                 finderQueries := Suc (finderQueries sm)\<rparr>
      in case found of
           Inl err \<Rightarrow>
             (sm\<lparr>warnings := warnings sm @ [''Failed to get sessions from session finder'']\<rparr>,
              Inr (Some (''get sessions from SessionFinder: '' @ err)))
         | Inr sessions \<Rightarrow>
             (case addLoop d sessions sm of
                (sm', Inl p) \<Rightarrow> (sm', Inl p)
              | (sm', Inr _) \<Rightarrow> (sm', Inr None)))"

text \<open>
  \<^verbatim>\<open>refreshSessions(force)\<close>: \<open>now\<close> is the clock reading of its guard, \<open>now'\<close> the later
  one of \<^verbatim>\<open>getAndAddSessions\<close>, \<open>found\<close> the answer the session finder would give.
\<close>

definition refreshSessions ::
  "deej \<Rightarrow> bool \<Rightarrow> int \<Rightarrow> int \<Rightarrow> string + Session list \<Rightarrow> sessionMap \<Rightarrow>
   sessionMap \<times> (panic + unit)" where
  "refreshSessions d force now now' found sm =
     (if \<not> force \<and> lastSessionRefresh sm + minTimeBetweenSessionRefreshes > now
      then (sm, Inr ())
      else
        (case getAndAddSessions d now' found (sessionMap_clear sm) of
           (sm', Inl p) \<Rightarrow> (sm', Inl p)
         | (sm', Inr (Some err)) \<Rightarrow>
             (sm'\<lparr>warnings := warnings sm' @ [''Failed to re-acquire all audio sessions'']\<rparr>,
              Inr ())
         | (sm', Inr None) \<Rightarrow> (sm', Inr ())))"

text \<open>
  \<^verbatim>\<open>newSessionMap\<close>: an empty map whose last refresh is Go's zero time, from which the
  model counts its nanoseconds.
\<close>

definition newSessionMap :: sessionMap where
  "newSessionMap =
     \<lparr>m_sessions = [], lastSessionRefresh = 0, unmappedSessions = [], released = [],
      warnings = [], finderQueries = 0\<rparr>"

subsection \<open>The unmapped sessions, in the words of the specification\<close>

text \<open>
  The literal targets of a slider mapping: every configured target without the
  \<^verbatim>\<open>deej.\<close> prefix, lowercased.  A key is unmapped when it is none of the reserved names,
  does not match the device pattern and is none of the literal targets.
\<close>

definition literalTargets :: "deej \<Rightarrow> string list" where
  "literalTargets d =
     map (ToLower (unicodeToLower d))
       (filter (\<lambda>t. \<not> HasPrefix t ''deej.'') (concat (map snd (SliderMapping d))))"

definition unmappedBySpec :: "deej \<Rightarrow> string \<Rightarrow> bool" where
  "unmappedBySpec d key =
     (key \<notin> {''master'', ''system'', ''mic''}
      \<and> \<not> MatchString deviceSessionKeyPattern key
      \<and> key \<notin> set (literalTargets d))"

text \<open>
  A condition on the configured targets: none gains the \<^verbatim>\<open>deej.\<close> prefix by lowercasing
  alone, as \<^verbatim>\<open>Deej.unmapped\<close> does.
\<close>

definition specialTargetsPrefixed :: "deej \<Rightarrow> bool" where
  "specialTargetsPrefixed d =
     list_all (\<lambda>t. targetHasSpecialTransform (ToLower (unicodeToLower d) t)
                    \<longrightarrow> targetHasSpecialTransform t)
       (concat (map snd (SliderMapping d)))"

subsection \<open>A registry for the examples\<close>

text \<open>Every string of the examples is ASCII: the case tables are never consulted, and
  the identity stands for them.\<close>

definition exampleDeej :: deej where
  "exampleDeej =
     \<lparr>SliderMapping = [(0, [''master'']), (1, [''deej.unmapped'']), (2, [''Spotify.exe''])],
      currentWindowProcessNames = None, unicodeToLower = id\<rparr>"

definition exampleSessions :: "Session list" where
  "exampleSessions =
     [\<lparr>Key = ''master'', Volume = 1\<rparr>, \<lparr>Key = ''spotify.exe'', Volume = 1 / 2\<rparr>,
      \<lparr>Key = ''chrome.exe'', Volume = 1 / 2\<rparr>,
      \<lparr>Key = ''speakers (realtek audio)'', Volume = 1\<rparr>]"

text \<open>The registry populated at one second.\<close>

definition populatedSessionMap :: sessionMap where
  "populatedSessionMap =
     fst (getAndAddSessions exampleDeej 1000000000 (Inr exampleSessions) newSessionMap)"

text \<open>A configuration that writes the special target with a capital, and a session of an
  application.\<close>

definition capitalDeej :: deej where
  "capitalDeej =
     \<lparr>SliderMapping = [(0, [''Deej.unmapped''])],
      currentWindowProcessNames = None, unicodeToLower = id\<rparr>"

definition chromeSession :: Session where
  "chromeSession = \<lparr>Key = ''chrome.exe'', Volume = 1 / 2\<rparr>"

section \<open>Rounding: error bounds\<close>

text \<open>Rounding to an integer moves a number by at most one half, keeps integers and keeps
  the order against an integer.\<close>

lemma rne_cases: "rne x = \<lfloor>x\<rfloor> \<or> rne x = \<lfloor>x\<rfloor> + 1"
  by (simp add: rne_def Let_def)

lemma rne_err: "\<bar>of_int (rne x) - x\<bar> \<le> 1 / 2"
proof -
  have "of_int \<lfloor>x\<rfloor> \<le> x" "x < of_int \<lfloor>x\<rfloor> + 1"
    by linarith+
  then show ?thesis
    by (auto simp: rne_def Let_def abs_le_iff)
qed

lemma rne_of_int: "rne (of_int n) = n"
  by (simp add: rne_def)

lemma rne_nonneg: "0 \<le> x \<Longrightarrow> 0 \<le> rne x"
  using rne_cases [of x] by (auto simp: zero_le_floor)

lemma rne_le: "x \<le> of_int n \<Longrightarrow> rne x \<le> n"
proof (cases "x = of_int n")
  case True
  then show ?thesis by (simp add: rne_of_int)
next
  case False
  assume "x \<le> of_int n"
  with False have "x < of_int n" by simp
  then have "\<lfloor>x\<rfloor> < n" by (simp add: floor_less_iff)
  with rne_cases [of x] show ?thesis by auto
qed

text \<open>The quantum of a rounding grows with the exponent; it bounds twice the error.\<close>

lemma pow2_pos: "0 < pow2 e"
  by (simp add: pow2_def)

lemma pow2_nonpos: "e \<le> 0 \<Longrightarrow> pow2 e = 1 / 2 ^ nat (- e)"
  by (auto simp: pow2_def)

lemma pow2_mono: "e \<le> e' \<Longrightarrow> pow2 e \<le> pow2 e'"
proof -
  assume le: "e \<le> e'"
  consider "0 \<le> e" | "e < 0" "0 \<le> e'" | "e' < 0" by linarith
  then show ?thesis
  proof cases
    case 1
    with le have "nat e \<le> nat e'" by simp
    then have "(2::rat) ^ nat e \<le> 2 ^ nat e'" by (intro power_increasing) simp_all
    with 1 le show ?thesis by (simp add: pow2_def)
  next
    case 2
    have "1 / (2::rat) ^ nat (- e) \<le> 1" by simp
    also have "\<dots> \<le> 2 ^ nat e'" by simp
    finally show ?thesis using 2 by (simp add: pow2_def)
  next
    case 3
    with le have "nat (- e') \<le> nat (- e)" by simp
    then have "(2::rat) ^ nat (- e') \<le> 2 ^ nat (- e)" by (intro power_increasing) simp_all
    then have "1 / (2::rat) ^ nat (- e) \<le> 1 / 2 ^ nat (- e')"
      by (intro divide_left_mono) simp_all
    with 3 le show ?thesis by (simp add: pow2_def)
  qed
qed

lemma ilog2_lt1: "0 < x \<Longrightarrow> x < 1 \<Longrightarrow> ilog2 x \<le> - 1"
proof -
  assume x: "0 < x" "x < 1"
  then have "1 < 1 / x" by simp
  then have "2 \<le> \<lceil>1 / x\<rceil>" by linarith
  then have "0 < \<lceil>1 / x\<rceil> - 1" by simp
  then have "1 \<le> bitlen (\<lceil>1 / x\<rceil> - 1)"
    using bitlen_eq_zero_iff [of "\<lceil>1 / x\<rceil> - 1"] bitlen_nonneg [of "\<lceil>1 / x\<rceil> - 1"]
    by linarith
  with x show ?thesis by (simp add: ilog2_def)
qed

lemma ilog2_ge1: "1 \<le> x \<Longrightarrow> x < 2 ^ n \<Longrightarrow> ilog2 x \<le> int n - 1"
proof -
  assume x: "1 \<le> x" "x < 2 ^ n"
  have "\<lfloor>x\<rfloor> < 2 ^ n"
    using x(2) by (simp add: floor_less_iff)
  then have "bitlen \<lfloor>x\<rfloor> \<le> int n"
    by (simp add: bitlen_le_iff_power)
  with x show ?thesis by (simp add: ilog2_def)
qed

lemma ilog2_pos_bound: "0 < x \<Longrightarrow> x < 2 ^ n \<Longrightarrow> ilog2 x \<le> int n - 1"
  using ilog2_lt1 [of x] ilog2_ge1 [of x n] by (cases "1 \<le> x") auto

lemma round_to_err:
  "\<bar>round_to p emin x - x\<bar> \<le> pow2 (max (ilog2 \<bar>x\<bar>) emin - (int p - 1)) / 2"
proof (cases "x = 0")
  case True
  then show ?thesis using pow2_pos [of "max (ilog2 \<bar>x\<bar>) emin - (int p - 1)"]
    by (simp add: round_to_def)
next
  case False
  let ?q = "pow2 (max (ilog2 \<bar>x\<bar>) emin - (int p - 1))"
  have q: "0 < ?q" by (rule pow2_pos)
  have "round_to p emin x - x = (of_int (rne (x / ?q)) - x / ?q) * ?q"
    using False q by (simp add: round_to_def Let_def algebra_simps)
  then have "\<bar>round_to p emin x - x\<bar> = \<bar>of_int (rne (x / ?q)) - x / ?q\<bar> * ?q"
    using q by (simp add: abs_mult)
  also have "\<dots> \<le> 1 / 2 * ?q"
    using rne_err [of "x / ?q"] q by (intro mult_right_mono) simp_all
  finally show ?thesis by simp
qed

lemma round_to_err_bound:
  assumes "0 \<le> x" "x < 2 ^ n" "emin \<le> int n - 1"
  shows "\<bar>round_to p emin x - x\<bar> \<le> pow2 (int n - int p) / 2"
proof (cases "x = 0")
  case True
  then show ?thesis using pow2_pos [of "int n - int p"] by (simp add: round_to_def)
next
  case False
  with assms have "ilog2 \<bar>x\<bar> \<le> int n - 1"
    using ilog2_pos_bound [of x n] by simp
  with assms(3) have "max (ilog2 \<bar>x\<bar>) emin - (int p - 1) \<le> int n - int p"
    by simp
  from pow2_mono [OF this] round_to_err [of p emin x] show ?thesis by simp
qed

lemma round_to_nonneg: "0 \<le> x \<Longrightarrow> 0 \<le> round_to p emin x"
  using pow2_pos by (auto simp: round_to_def Let_def intro!: mult_nonneg_nonneg rne_nonneg
      simp: less_imp_le)

lemma round_to_unfold:
  "x \<noteq> 0 \<Longrightarrow> e = max (ilog2 \<bar>x\<bar>) emin - (int p - 1) \<Longrightarrow>
   round_to p emin x = of_int (rne (x / pow2 e)) * pow2 e"
  by (simp add: round_to_def Let_def)

lemma round_to_le_1:
  assumes "0 \<le> x" "x \<le> 1" "emin \<le> 0" "0 < p"
  shows "round_to p emin x \<le> 1"
proof (cases "x = 0")
  case True
  then show ?thesis by (simp add: round_to_def)
next
  case False
  define e where "e = max (ilog2 \<bar>x\<bar>) emin - (int p - 1)"
  have "ilog2 \<bar>x\<bar> \<le> 0"
    using ilog2_pos_bound [of x 1] assms False
    by (cases "x = 1") (auto simp: ilog2_def)
  with assms have e: "e \<le> 0" by (simp add: e_def)
  define k where "k = nat (- e)"
  have q: "pow2 e = 1 / 2 ^ k" unfolding k_def by (rule pow2_nonpos [OF e])
  have "x * 2 ^ k \<le> 1 * 2 ^ k"
    using assms(2) by (intro mult_right_mono) simp_all
  then have "x / pow2 e \<le> of_int (2 ^ k)"
    by (simp add: q)
  then have "rne (x / pow2 e) \<le> 2 ^ k" by (rule rne_le)
  then have "(of_int (rne (x / pow2 e)) :: rat) \<le> of_int (2 ^ k)"
    by (simp only: of_int_le_iff)
  then have "of_int (rne (x / pow2 e)) * pow2 e \<le> 1"
    by (simp add: q pos_divide_le_eq)
  with round_to_unfold [OF False e_def] show ?thesis by simp
qed

lemma round_to_of_int:
  assumes "0 < n" "n < 2 ^ p" "emin \<le> 0" "0 < p"
  shows "round_to p emin (of_int n) = of_int n"
proof -
  define e where "e = max (ilog2 \<bar>of_int n\<bar>) emin - (int p - 1)"
  have "(of_int n :: rat) < 2 ^ p"
    using assms(2) by (metis of_int_less_iff of_int_numeral of_int_power)
  then have "ilog2 \<bar>of_int n\<bar> \<le> int p - 1"
    using ilog2_ge1 [of "of_int n" p] assms by simp
  with assms have e: "e \<le> 0" by (simp add: e_def)
  define k where "k = nat (- e)"
  have q: "pow2 e = 1 / 2 ^ k" unfolding k_def by (rule pow2_nonpos [OF e])
  have "of_int n / pow2 e = (of_int (n * 2 ^ k) :: rat)"
    by (simp add: q)
  then have "rne (of_int n / pow2 e) = n * 2 ^ k"
    by (simp only: rne_of_int)
  moreover have "(of_int n :: rat) \<noteq> 0" using assms by simp
  ultimately show ?thesis
    using round_to_unfold [OF _ e_def] by (simp add: q)
qed

section \<open>Normalization of a raw slider value\<close>

lemma pow2_values: "pow2 (- 24) = 1 / 2 ^ 24" "pow2 (- 46) = 1 / 2 ^ 46" "pow2 (- 53) = 1 / 2 ^ 53"
  by (simp_all add: pow2_def)

lemma f32_unit_err: "0 \<le> x \<Longrightarrow> x < 1 \<Longrightarrow> \<bar>f32 x - x\<bar> \<le> 1 / 2 ^ 25"
  using round_to_err_bound [of x 0 "- 126" 24] by (simp add: f32_def pow2_values)

lemma f64_unit_err: "0 \<le> x \<Longrightarrow> x < 1 \<Longrightarrow> \<bar>f64 x - x\<bar> \<le> 1 / 2 ^ 54"
  using round_to_err_bound [of x 0 "- 1022" 53] by (simp add: f64_def pow2_values)

lemma f64_128_err: "0 \<le> x \<Longrightarrow> x < 128 \<Longrightarrow> \<bar>f64 x - x\<bar> \<le> 1 / 2 ^ 47"
  using round_to_err_bound [of x 7 "- 1022" 53] by (simp add: f64_def pow2_values)

lemma f32_unit_range: "0 \<le> x \<Longrightarrow> x \<le> 1 \<Longrightarrow> 0 \<le> f32 x \<and> f32 x \<le> 1"
  by (simp add: f32_def round_to_nonneg round_to_le_1)

lemma f64_unit_range: "0 \<le> x \<Longrightarrow> x \<le> 1 \<Longrightarrow> 0 \<le> f64 x \<and> f64 x \<le> 1"
  by (simp add: f64_def round_to_nonneg round_to_le_1)

lemma f32_of_raw: "0 < raw \<Longrightarrow> raw < 1024 \<Longrightarrow> f32 (of_int raw) = of_int raw"
  using round_to_of_int [of raw 24 "- 126"] by (simp add: f32_def)

lemma f_one: "f32 1 = 1" "f64 1 = 1" "f32 0 = 0" "f64 0 = 0"
  by code_simp+

text \<open>\<open>100 * raw / 1023\<close> is at least \<open>1 / 1023\<close> away from every integer, unless \<open>raw\<close> is
  0 or 1023: the two roundings before \<^verbatim>\<open>math.Floor\<close> cannot move it across one.\<close>

lemma raw_mod: "0 < raw \<Longrightarrow> raw < 1023 \<Longrightarrow> (100 * raw) mod 1023 \<noteq> (0::int)"
proof
  assume r: "0 < raw" "raw < 1023" and "(100 * raw) mod 1023 = (0::int)"
  then have "(1023::int) dvd raw * 100" by (simp add: mod_eq_0_iff_dvd mult.commute)
  moreover have "coprime (1023::int) 100" by code_simp
  ultimately have "(1023::int) dvd raw" by (simp add: coprime_dvd_mult_left_iff)
  with r show False by (auto dest: zdvd_imp_le)
qed

lemma floor_scaled:
  assumes "0 < raw" "raw < 1023"
  shows "\<lfloor>f64 (f32 (of_int raw / 1023) * 100)\<rfloor> = 100 * raw div 1023"
proof -
  define x :: rat where "x = of_int raw / 1023"
  define k where "k = 100 * raw div 1023"
  define m where "m = (100 * raw) mod 1023"
  have m: "1 \<le> m" "m \<le> 1022"
    using raw_mod [OF assms] pos_mod_bound [of 1023 "100 * raw"] pos_mod_sign [of 1023 "100 * raw"]
    by (simp_all add: m_def)
  have "100 * raw = 1023 * k + m"
    by (simp add: k_def m_def)
  then have "(of_int (100 * raw) :: rat) = of_int (1023 * k + m)" by simp
  then have hx: "100 * x = of_int k + of_int m / 1023"
    by (simp add: x_def)
  have mr: "(1::rat) \<le> of_int m" "(of_int m :: rat) \<le> 1022"
    using m by simp_all
  have x01: "0 < x" "x < 1" using assms by (simp_all add: x_def)
  define v where "v = f32 x"
  have v: "\<bar>v - x\<bar> \<le> 1 / 2 ^ 25" "0 \<le> v" "v \<le> 1"
    using f32_unit_err [of x] f32_unit_range [of x] x01 by (simp_all add: v_def)
  define w where "w = f64 (v * 100)"
  have w: "\<bar>w - v * 100\<bar> \<le> 1 / 2 ^ 47"
    using f64_128_err [of "v * 100"] v by (simp add: w_def)
  define kq :: rat where "kq = of_int k"
  define mq :: rat where "mq = of_int m / 1023"
  have mq: "1 / 1023 \<le> mq" "mq \<le> 1022 / 1023"
    using mr by (simp_all add: mq_def)
  have hx': "100 * x = kq + mq"
    using hx by (simp add: kq_def mq_def)
  have "(1::rat) / 2 ^ 25 = 1 / 33554432" "(1::rat) / 2 ^ 47 = 1 / 140737488355328"
    by simp_all
  with v(1) w have va: "\<bar>v - x\<bar> \<le> 1 / 33554432" and wa: "\<bar>w - v * 100\<bar> \<le> 1 / 140737488355328"
    by (simp_all only:)
  have v1: "v - x \<le> 1 / 33554432" "x - v \<le> 1 / 33554432"
    using va by linarith+
  have w1: "w - v * 100 \<le> 1 / 140737488355328" "v * 100 - w \<le> 1 / 140737488355328"
    using wa by linarith+
  have "kq \<le> w" and "w < kq + 1"
    using mq hx' v1 w1 by linarith+
  then have lo: "of_int k \<le> w" and hi: "w < of_int k + 1"
    by (simp_all add: kq_def)
  have "\<lfloor>w\<rfloor> = k"
    using lo hi by (simp add: floor_unique)
  then show ?thesis by (simp add: w_def v_def x_def k_def)
qed

lemma normalize_ends:
  "NormalizeScalar (f32 (f32 (of_int 0) / 1023)) = f32 (f64 (of_int (100 * 0 div 1023) / 100))"
  "NormalizeScalar (f32 (f32 (of_int 1023) / 1023)) = f32 (f64 (of_int (100 * 1023 div 1023) / 100))"
  by code_simp+

lemma normalize_eq:
  assumes "0 \<le> raw" "raw \<le> 1023"
  shows "NormalizeScalar (f32 (f32 (of_int raw) / 1023))
         = f32 (f64 (of_int (100 * raw div 1023) / 100))"
proof -
  consider "raw = 0" | "raw = 1023" | "0 < raw" "raw < 1023"
    using assms by linarith
  then show ?thesis
  proof cases
    case 1
    then show ?thesis by (simp only: normalize_ends)
  next
    case 2
    then show ?thesis by (simp only: normalize_ends)
  next
    case 3
    then have "f32 (of_int raw) = of_int raw" by (simp add: f32_of_raw)
    with floor_scaled [OF 3] show ?thesis by (simp add: NormalizeScalar_def)
  qed
qed

lemma two_decimals_float:
  assumes "0 \<le> k" "k \<le> 100"
  shows "0 \<le> f32 (f64 (of_int k / 100)) \<and> f32 (f64 (of_int k / 100)) \<le> 1
         \<and> \<bar>f32 (f64 (of_int k / 100)) - of_int k / 100\<bar> \<le> 1 / 2 ^ 24"
proof -
  define c :: rat where "c = of_int k / 100"
  define z where "z = f64 c"
  have c: "0 \<le> c" "c \<le> 1" using assms by (simp_all add: c_def)
  have z: "0 \<le> z" "z \<le> 1" using f64_unit_range [OF c] by (simp_all add: z_def)
  have r: "0 \<le> f32 z" "f32 z \<le> 1" using f32_unit_range [OF z] by simp_all
  have n: "(1::rat) / 2 ^ 54 = 1 / 18014398509481984" "(1::rat) / 2 ^ 25 = 1 / 33554432"
    "(1::rat) / 2 ^ 24 = 1 / 16777216"
    by simp_all
  have zc: "\<bar>z - c\<bar> \<le> 1 / 18014398509481984"
  proof (cases "c = 1")
    case True
    then show ?thesis by (simp add: z_def f_one)
  next
    case False
    with c f64_unit_err [of c] show ?thesis by (simp only: z_def n)
  qed
  have fz: "\<bar>f32 z - z\<bar> \<le> 1 / 33554432"
  proof (cases "z = 1")
    case True
    then show ?thesis by (simp add: f_one)
  next
    case False
    with z f32_unit_err [of z] show ?thesis by (simp only: n)
  qed
  have "\<bar>f32 z - c\<bar> \<le> 1 / 16777216"
    using zc fz by linarith
  with r show ?thesis by (simp only: n z_def c_def simp_thms)
qed

lemma scaled_bounds: "0 \<le> raw \<Longrightarrow> raw \<le> 1023 \<Longrightarrow> 0 \<le> 100 * raw div 1023 \<and> 100 * raw div 1023 \<le> (100::int)"
  by (auto simp: pos_imp_zdiv_nonneg_iff)

text \<open>
  C5.  For every raw value from 0 to 1023 the decoder's
  \<^verbatim>\<open>NormalizeScalar(float32(rawValue) / 1023.0)\<close> is the \<^verbatim>\<open>float32\<close> of the two-decimal
  number \<open>\<lfloor>100 * raw / 1023\<rfloor> / 100\<close>: it lies between 0 and 1 and within \<open>2^-24\<close> of
  that number, the floor being exact in spite of the roundings.  Raw 511 gives the
  \<^verbatim>\<open>float32\<close> of 0.49, which is not that of 0.50.
\<close>

theorem C5_normalize:
  "(0 \<le> raw \<and> raw \<le> 1023 \<longrightarrow>
      NormalizeScalar (f32 (f32 (of_int raw) / 1023))
        = f32 (f64 (of_int (100 * raw div 1023) / 100))
      \<and> 0 \<le> NormalizeScalar (f32 (f32 (of_int raw) / 1023))
      \<and> NormalizeScalar (f32 (f32 (of_int raw) / 1023)) \<le> 1
      \<and> \<bar>NormalizeScalar (f32 (f32 (of_int raw) / 1023)) - of_int (100 * raw div 1023) / 100\<bar>
          \<le> 1 / 2 ^ 24)
   \<and> NormalizeScalar (f32 (f32 (of_int 511) / 1023)) = f32 (49 / 100)
   \<and> f32 (49 / 100) \<noteq> f32 (50 / 100)"
proof -
  have a: "NormalizeScalar (f32 (f32 (of_int 511) / 1023)) = f32 (49 / 100)"
    by code_simp
  have b: "f32 (49 / 100) \<noteq> f32 (50 / 100)"
    by code_simp
  have c: "NormalizeScalar (f32 (f32 (of_int raw) / 1023))
        = f32 (f64 (of_int (100 * raw div 1023) / 100))
      \<and> 0 \<le> NormalizeScalar (f32 (f32 (of_int raw) / 1023))
      \<and> NormalizeScalar (f32 (f32 (of_int raw) / 1023)) \<le> 1
      \<and> \<bar>NormalizeScalar (f32 (f32 (of_int raw) / 1023)) - of_int (100 * raw div 1023) / 100\<bar>
          \<le> 1 / 2 ^ 24" if r: "0 \<le> raw" "raw \<le> 1023"
    using normalize_eq [OF r] two_decimals_float [of "100 * raw div 1023"] scaled_bounds [OF r]
    by (simp only: simp_thms)
  from a b c show ?thesis by blast
qed

theorem C5_normalize_witness:
  "NormalizeScalar (f32 (f32 (of_int 700) / 1023)) = f32 (f64 (68 / 100))
   \<and> 0 \<le> NormalizeScalar (f32 (f32 (of_int 700) / 1023))
   \<and> NormalizeScalar (f32 (f32 (of_int 700) / 1023)) \<le> 1"
  using C5_normalize [where raw = 700]
  by simp

section \<open>Evaluation of the rounding and of the library functions\<close>

lemma f32_values:
  "f32 0 = 0" "f32 1 = 1" "f32 (- 1) = - 1" "f32 (1 / 2) = 1 / 2"
  by code_simp+

lemma threshold_values:
  "f64 (35 / 1000) = 5044031582654956 / 2 ^ 57"
  "f64 (15 / 1000) = 8646911284551352 / 2 ^ 59"
  "f64 (25 / 1000) = 7205759403792794 / 2 ^ 58"
  "f64 (1 / 1000000) = 4722366482869645 / 2 ^ 72"
  by code_simp+

lemma threshold_cases:
  "getSignificantDifferenceThreshold level =
     (if level = ''high'' then 5044031582654956 / 2 ^ 57
      else if level = ''low'' then 8646911284551352 / 2 ^ 59
      else 7205759403792794 / 2 ^ 58)"
  by (simp only: getSignificantDifferenceThreshold_def threshold_values)

lemma threshold_bounds:
  "0 < getSignificantDifferenceThreshold level"
  "1 / 100 < getSignificantDifferenceThreshold level"
  "getSignificantDifferenceThreshold level < 1"
  by (simp_all add: threshold_cases)

lemma ReadStrings_example: "ReadStrings [] exampleLine = [exampleLine]"
  by code_simp

lemma TrimSuffix_example: "TrimSuffix exampleLine [CR, LF] = ''512|1023''"
  by code_simp

lemma trimmed_line_no_match: "\<not> MatchString expectedLinePattern ''512|1023''"
  by code_simp

lemma processLine_trimmed: "processLine cfg sio ''512|1023'' = Inr (sio, [])"
  by (simp only: processLine_def trimmed_line_no_match not_False_eq_True if_True)

section \<open>The decoder on the line of the end-to-end example\<close>

text \<open>
  C1.  The claim: the line \<^verbatim>\<open>"512|1023\r\n"\<close> read from the serial stream gives the two
  events \<open>(0, 0.50)\<close> and \<open>(1, 1.00)\<close>.  The code: \<^verbatim>\<open>readLoop\<close> trims \<^verbatim>\<open>"\r\n"\<close> from the
  line before \<^verbatim>\<open>processLine\<close> matches it against a pattern that ends in \<^verbatim>\<open>\r\n\<close>; the
  match fails, the decoder's state is untouched and no event is sent, whatever the
  configuration and the state.  (No input at all makes this decoder send an event: see
  the section on every input.)
\<close>

theorem C1_readLoop_sends_no_event:
  "readLoop cfg sio exampleLine = Inr (closeConnection sio, [])"
  by (simp only: readLoop_def ReadStrings_example linesLoop.simps TrimSuffix_example
      processLine_trimmed sum.case prod.case append_Nil)

section \<open>The significance examples\<close>

text \<open>
  C4, as the claim states it: old \<open>0.50\<close> and new \<open>0.525\<close> at the default level are
  significantly different.  The arguments are \<^verbatim>\<open>float32\<close>; the \<^verbatim>\<open>float32\<close> nearest to
  \<open>0.525\<close> is \<open>8808038 / 2^24\<close>, below \<open>0.525\<close>, and the difference the code computes is
  \<open>419430 / 2^24\<close>, below the threshold.  The code returns false.
\<close>

theorem C4_counterexample:
  "\<not> SignificantlyDifferent (f32 (50 / 100)) (f32 (525 / 1000)) ''default''"
  by code_simp

text \<open>
  C4, amended: with old \<open>0.50\<close>, at the default noise level, new \<open>0.525\<close> and new \<open>0.524\<close>
  both return false; with old \<open>0.99\<close> and new \<open>1.00\<close> the result is true at every noise
  level; with old \<open>1.00\<close> and new \<open>1.00\<close> it is false at every noise level.
\<close>

theorem C4_significance_examples:
  "SignificantlyDifferent (f32 (1 / 2)) (f32 (525 / 1000)) ''default'' = False
   \<and> SignificantlyDifferent (f32 (1 / 2)) (f32 (524 / 1000)) ''default'' = False
   \<and> SignificantlyDifferent (f32 (99 / 100)) (f32 1) level = True
   \<and> SignificantlyDifferent (f32 1) (f32 1) level = False"
proof -
  have a: "SignificantlyDifferent (f32 (1 / 2)) (f32 (525 / 1000)) ''default'' = False"
    by code_simp
  have b: "SignificantlyDifferent (f32 (1 / 2)) (f32 (524 / 1000)) ''default'' = False"
    by code_simp
  have e1: "almostEquals 1 1" and e0: "\<not> almostEquals 1 0"
    by code_simp+
  have ne: "f32 (99 / 100) \<noteq> 1"
    by code_simp
  have c: "SignificantlyDifferent (f32 (99 / 100)) (f32 1) level = True"
    using ne by (simp add: SignificantlyDifferent_def f32_values(2) e1)
  have d: "SignificantlyDifferent (f32 1) (f32 1) level = False"
    using threshold_bounds(1) [of level]
    by (simp add: SignificantlyDifferent_def f32_values(1,2) e0 Let_def)
  from a b c d show ?thesis by simp
qed

section \<open>The decoder on lines that match the pattern\<close>

text \<open>
  C8.  The claim: after a change of the field count the first report fires an event for
  every slider.  The code, on \<^verbatim>\<open>"512|1023\r\n"\<close> given to \<^verbatim>\<open>processLine\<close> as it is, with
  no slider seen before: the line matches, the cache is reset to two sentinels, slider 0
  is found significantly different and cached; the last field is \<^verbatim>\<open>"1023\r\n"\<close>, which
  \<^verbatim>\<open>Atoi\<close> refuses, and \<^verbatim>\<open>processLine\<close> returns before it sends anything.
\<close>

theorem C8_first_report_sends_no_event:
  "processLine exampleConfig startedSerialIO exampleLine
   = Inr (\<lparr>connected = True, lastKnownNumSliders = 2,
            currentSliderPercentValues = [1 / 2, - 1]\<rparr>, [])"
  by code_simp

text \<open>
  C10.  \<^verbatim>\<open>processLine\<close> is not atomic on its cache.  On the line \<^verbatim>\<open>"512|2000\r\n"\<close>, whose
  second field is invalid, a decoder that has seen no slider sends no event, yet leaves
  \<open>0.5\<close> cached for slider 0, a value that was significantly different from the
  sentinel it replaced.  The same line again sends no event and changes nothing; and the
  field loop on the valid fields \<open>512\<close> and \<open>1023\<close>, from that cache, has an event for
  slider 1 only: the move of slider 0 is never reported.
\<close>

theorem C10_processLine_not_atomic:
  "processLine exampleConfig startedSerialIO invalidFieldLine
   = Inr (\<lparr>connected = True, lastKnownNumSliders = 2,
            currentSliderPercentValues = [1 / 2, - 1]\<rparr>, [])
   \<and> SignificantlyDifferent (- 1) (1 / 2) (NoiseReductionLevel exampleConfig)
   \<and> processLine exampleConfig
        \<lparr>connected = True, lastKnownNumSliders = 2,
           currentSliderPercentValues = [1 / 2, - 1]\<rparr> invalidFieldLine
      = Inr (\<lparr>connected = True, lastKnownNumSliders = 2,
               currentSliderPercentValues = [1 / 2, - 1]\<rparr>, [])
   \<and> fieldsLoop exampleConfig 0 [''512'', ''1023''] [1 / 2, - 1] []
      = Inr ([1 / 2, 1], Some [\<lparr>SliderID = 1, PercentValue = 1\<rparr>])"
  by code_simp

section \<open>The default slider mapping\<close>

text \<open>
  C3.  The claim: with no \<^verbatim>\<open>slider_mapping\<close> in the user's configuration the mapping is
  slider 0 to \<^verbatim>\<open>["master"]\<close>.  The code declares that mapping as \<^verbatim>\<open>defaultSliderMapping\<close>
  and never reads it: the default registered for the key is the empty map, and a user
  file without the key, with no internal configuration, gives the empty slider map.
\<close>

theorem C3_no_mapping_gives_empty_map:
  "populateFromVipers (ReadInConfig (fst initializeViperInstances) Map.empty)
     (snd initializeViperInstances) = newSliderMap
   \<and> defaultSliderMapping = [(0, [''master''])]
   \<and> newSliderMap \<noteq> defaultSliderMapping"
  by (simp add: populateFromVipers_def ReadInConfig_def initializeViperInstances_def
      initializeViper_def GetStringMapStringSlice_def sliderMapFromConfigs_def
      newSliderMap_def defaultSliderMapping_def masterSessionName_def)

section \<open>The decoder on every input\<close>

text \<open>A line that matches the expected pattern ends in a line feed.\<close>

lemma endsInLF_nullable: "endsInLF b r \<Longrightarrow> nullable r \<Longrightarrow> b"
  by (induction r arbitrary: b) auto

lemma endsInLF_deriv: "endsInLF b r \<Longrightarrow> endsInLF (c = LF) (deriv c r)"
  by (induction r arbitrary: b) auto

lemma endsInLF_match:
  "endsInLF b r \<Longrightarrow> MatchString r s \<Longrightarrow> (if s = [] then b else last s = LF)"
proof (induction s arbitrary: r b)
  case Nil
  then show ?case by (auto dest: endsInLF_nullable)
next
  case (Cons c cs)
  from Cons.prems have "endsInLF (c = LF) (deriv c r)" "MatchString (deriv c r) cs"
    by (simp_all add: endsInLF_deriv)
  from Cons.IH [OF this] show ?case by (auto split: if_splits)
qed

lemma expected_line_ends_in_LF:
  "MatchString expectedLinePattern line \<Longrightarrow> line \<noteq> [] \<and> last line = LF"
proof -
  assume m: "MatchString expectedLinePattern line"
  have "endsInLF False expectedLinePattern"
    by (simp add: expectedLinePattern_def)
  from endsInLF_match [OF this m] show ?thesis by (auto split: if_splits)
qed

text \<open>So does the last of its fields, and \<^verbatim>\<open>Atoi\<close> refuses it.\<close>

lemma Split_nonempty: "Split s sep \<noteq> []"
  by (induction s) (auto split: list.splits)

lemma Split_last:
  "s \<noteq> [] \<Longrightarrow> last s \<noteq> sep \<Longrightarrow>
   last (Split s sep) \<noteq> [] \<and> last (last (Split s sep)) = last s"
proof (induction s)
  case Nil
  then show ?case by simp
next
  case (Cons c cs)
  show ?case
  proof (cases "cs = []")
    case True
    with Cons.prems show ?thesis by simp
  next
    case False
    with Cons have ih: "last (Split cs sep) \<noteq> [] \<and> last (last (Split cs sep)) = last cs"
      by simp
    show ?thesis
    proof (cases "Split cs sep")
      case Nil
      with Split_nonempty show ?thesis by blast
    next
      case (Cons w ws)
      with ih False show ?thesis by (cases ws) auto
    qed
  qed
qed

lemma digitVal_LF: "digitVal LF = None"
  by code_simp

lemma digitsVal_LF: "LF \<in> set w \<Longrightarrow> digitsVal n w = None"
  by (induction w arbitrary: n) (auto simp: digitVal_LF split: option.splits)

lemma LF_no_sign: "LF \<noteq> CHR ''-''" "LF \<noteq> CHR ''+''"
  by (simp_all add: LF_def)

lemma Atoi_LF: "w \<noteq> [] \<Longrightarrow> last w = LF \<Longrightarrow> Atoi w = None"
proof -
  assume w: "w \<noteq> []" "last w = LF"
  then obtain c cs where c: "w = c # cs" by (cases w) auto
  have in_w: "LF \<in> set w" using w by (metis last_in_set)
  show ?thesis
  proof (cases "cs = []")
    case True
    with c w have "c = LF" by simp
    with True c show ?thesis
      by (simp add: Atoi_def LF_no_sign digitVal_LF)
  next
    case False
    with c w have "LF \<in> set cs" by (metis last_ConsR last_in_set)
    with in_w c False show ?thesis
      by (auto simp: Atoi_def digitsVal_LF split: option.splits)
  qed
qed

text \<open>The field loop then leaves \<^verbatim>\<open>processLine\<close> early: whatever the line, the state and
  the configuration, \<^verbatim>\<open>processLine\<close> and \<^verbatim>\<open>readLoop\<close> send no event.\<close>

lemma fieldsLoop_invalid_last:
  "vals \<noteq> [] \<Longrightarrow> Atoi (last vals) = None \<Longrightarrow>
   fieldsLoop cfg i vals cur events \<noteq> Inr (cur', Some events')"
proof (induction vals arbitrary: i cur events)
  case Nil
  then show ?case by simp
next
  case (Cons v vals)
  show ?case
  proof (cases "vals = []")
    case True
    with Cons.prems show ?thesis by simp
  next
    case False
    with Cons.prems have "Atoi (last vals) = None" by simp
    from Cons.IH [OF False this] show ?thesis
      by (auto simp: Let_def split: option.splits)
  qed
qed

lemma processLine_sends_nothing:
  "processLine cfg sio line = Inr (sio', events) \<Longrightarrow> events = []"
proof (cases "MatchString expectedLinePattern line")
  case False
  assume "processLine cfg sio line = Inr (sio', events)"
  with False show ?thesis by (simp add: processLine_def)
next
  case True
  assume p: "processLine cfg sio line = Inr (sio', events)"
  from expected_line_ends_in_LF [OF True] have l: "line \<noteq> []" "last line = LF" by simp_all
  have "LF \<noteq> CHR ''|''" by (simp add: LF_def)
  with l Split_last [of line "CHR ''|''"]
  have "last (Split line (CHR ''|'')) \<noteq> []" "last (last (Split line (CHR ''|''))) = LF"
    by simp_all
  then have a: "Atoi (last (Split line (CHR ''|''))) = None" by (rule Atoi_LF)
  note f = fieldsLoop_invalid_last [OF Split_nonempty a]
  from p True show ?thesis
    by (auto simp: processLine_def Let_def f split: sum.splits prod.splits option.splits if_splits)
qed

lemma linesLoop_sends_nothing:
  "linesLoop cfg sio ls sent = Inr (sio', events) \<Longrightarrow> events = sent"
proof (induction ls arbitrary: sio sent)
  case Nil
  then show ?case by simp
next
  case (Cons l ls)
  show ?case
  proof (cases "processLine cfg sio (TrimSuffix l [CR, LF])")
    case (Inl p)
    with Cons.prems show ?thesis by simp
  next
    case (Inr r)
    obtain sio1 ev where r: "r = (sio1, ev)" by (cases r)
    from Inr r processLine_sends_nothing have "ev = []" by blast
    with Cons.prems Inr r Cons.IH [of sio1 sent] show ?thesis by simp
  qed
qed

lemma readLoop_sends_nothing:
  "readLoop cfg sio input = Inr (sio', events) \<Longrightarrow> events = []"
  unfolding readLoop_def by (rule linesLoop_sends_nothing)

text \<open>
  The sentinel itself does what it is meant to do: \<open>-1\<close> is significantly different
  from every value between 0 and 1, at every noise level.
\<close>

lemma f32_le_minus_1:
  assumes "- 2 \<le> x" "x \<le> - 1"
  shows "f32 x \<le> - 1"
proof -
  define e where "e = max (ilog2 \<bar>x\<bar>) (- 126) - (int 24 - 1)"
  have "ilog2 \<bar>x\<bar> \<le> int 2 - 1"
    using ilog2_ge1 [of "\<bar>x\<bar>" 2] assms by simp
  then have e: "e \<le> 0" by (simp add: e_def)
  define k where "k = nat (- e)"
  have q: "pow2 e = 1 / 2 ^ k" unfolding k_def by (rule pow2_nonpos [OF e])
  have "x * 2 ^ k \<le> - 1 * 2 ^ k"
    using assms(2) by (intro mult_right_mono) simp_all
  then have "x / pow2 e \<le> of_int (- (2 ^ k))"
    by (simp add: q)
  then have "rne (x / pow2 e) \<le> - (2 ^ k)" by (rule rne_le)
  then have "(of_int (rne (x / pow2 e)) :: rat) \<le> of_int (- (2 ^ k))"
    by (simp only: of_int_le_iff)
  then have "of_int (rne (x / pow2 e)) * pow2 e \<le> - 1"
    by (simp add: q pos_divide_le_eq)
  moreover have "x \<noteq> 0" using assms by auto
  ultimately show ?thesis
    using round_to_unfold [OF _ e_def] by (simp add: f32_def)
qed

lemma sentinel_always_significant:
  assumes "0 \<le> v" "v \<le> 1"
  shows "SignificantlyDifferent (- 1) v level"
proof -
  have "f32 (- 1 - v) \<le> - 1" using assms by (intro f32_le_minus_1) simp_all
  then have "1 \<le> \<bar>f32 (- 1 - v)\<bar>" by simp
  with threshold_bounds(3) [of level] show ?thesis
    by (simp add: SignificantlyDifferent_def Let_def)
qed

section \<open>The session map: refresh\<close>

text \<open>Adding sessions changes neither the refresh time, nor the log, nor the count of
  queries, and releases nothing.\<close>

lemma sessionMap_add_fields [simp]:
  "lastSessionRefresh (sessionMap_add sm v) = lastSessionRefresh sm"
  "unmappedSessions (sessionMap_add sm v) = unmappedSessions sm"
  "released (sessionMap_add sm v) = released sm"
  "warnings (sessionMap_add sm v) = warnings sm"
  "finderQueries (sessionMap_add sm v) = finderQueries sm"
  by (simp_all add: sessionMap_add_def split: option.splits)

lemma addLoop_fields:
  "lastSessionRefresh (fst (addLoop d ss sm)) = lastSessionRefresh sm
   \<and> warnings (fst (addLoop d ss sm)) = warnings sm
   \<and> finderQueries (fst (addLoop d ss sm)) = finderQueries sm"
proof (induction ss arbitrary: sm)
  case Nil
  show ?case by simp
next
  case (Cons s ss)
  show ?case
  proof (cases "sessionMapped d (sessionMap_add sm s) s")
    case (Inl p)
    then show ?thesis by (simp add: Let_def)
  next
    case (Inr b)
    then show ?thesis
      using Cons.IH [of "sessionMap_add sm s"]
        Cons.IH [of "(sessionMap_add sm s)\<lparr>unmappedSessions := unmappedSessions (sessionMap_add sm s) @ [s]\<rparr>"]
      by (cases b) (simp_all add: Let_def)
  qed
qed

lemma getAndAddSessions_fields:
  "finderQueries (fst (getAndAddSessions d now found sm)) = Suc (finderQueries sm)"
  "lastSessionRefresh (fst (getAndAddSessions d now found sm)) = now"
proof -
  let ?sm1 = "sm\<lparr>lastSessionRefresh := now, unmappedSessions := [],
                finderQueries := Suc (finderQueries sm)\<rparr>"
  show "finderQueries (fst (getAndAddSessions d now found sm)) = Suc (finderQueries sm)"
  proof (cases found)
    case (Inl err)
    then show ?thesis by (simp add: getAndAddSessions_def)
  next
    case (Inr ss)
    then show ?thesis
      using addLoop_fields [of d ss ?sm1]
      by (cases "addLoop d ss ?sm1") (auto simp: getAndAddSessions_def split: sum.splits)
  qed
  show "lastSessionRefresh (fst (getAndAddSessions d now found sm)) = now"
  proof (cases found)
    case (Inl err)
    then show ?thesis by (simp add: getAndAddSessions_def)
  next
    case (Inr ss)
    then show ?thesis
      using addLoop_fields [of d ss ?sm1]
      by (cases "addLoop d ss ?sm1") (auto simp: getAndAddSessions_def split: sum.splits)
  qed
qed

lemma refreshSessions_queries:
  "finderQueries (fst (refreshSessions d force now now' found sm)) =
     (if \<not> force \<and> lastSessionRefresh sm + minTimeBetweenSessionRefreshes > now
      then finderQueries sm else Suc (finderQueries sm))"
  "lastSessionRefresh (fst (refreshSessions d force now now' found sm)) =
     (if \<not> force \<and> lastSessionRefresh sm + minTimeBetweenSessionRefreshes > now
      then lastSessionRefresh sm else now')"
  using getAndAddSessions_fields [of d now' found "sessionMap_clear sm"]
  by (cases "getAndAddSessions d now' found (sessionMap_clear sm)";
      auto simp: refreshSessions_def sessionMap_clear_def split: sum.splits option.splits)+

lemma populated_fields:
  "lastSessionRefresh populatedSessionMap = 1000000000"
  "finderQueries populatedSessionMap = 1"
  by (simp_all add: populatedSessionMap_def getAndAddSessions_fields newSessionMap_def)

text \<open>
  C7, as the claim states it: any two \<^verbatim>\<open>refreshSessions(false)\<close> calls less than five
  seconds apart make exactly one query.  The registry populated at 1 s has made one
  query; calls at 2 s and at 3 s are both within the cooldown of that population and make
  none: the count of queries is still one after them.
\<close>

theorem C7_counterexample:
  "finderQueries populatedSessionMap = 1
   \<and> finderQueries (fst (refreshSessions exampleDeej False 3000000000 3000000000
        (Inr exampleSessions)
        (fst (refreshSessions exampleDeej False 2000000000 2000000000
           (Inr exampleSessions) populatedSessionMap)))) = 1"
  by (simp add: refreshSessions_queries populated_fields minTimeBetweenSessionRefreshes_def)

text \<open>
  C7, amended.  A \<^verbatim>\<open>refreshSessions(false)\<close> that is not itself within five seconds of
  the last refresh (its clock reading \<open>ta\<close> passes the guard) makes one query, and a second
  \<^verbatim>\<open>refreshSessions(false)\<close> at a time \<open>tb\<close> within five seconds of the first is a no-op:
  the two calls make exactly one query.  \<^verbatim>\<open>refreshSessions(true)\<close> makes one query in
  every state and at every time.  (\<open>ta'\<close> is the later clock reading at which the first
  call records its refresh.)
\<close>

theorem C7_refresh_cooldown:
  "(\<not> lastSessionRefresh sm + minTimeBetweenSessionRefreshes > ta \<longrightarrow> ta \<le> ta' \<longrightarrow>
    tb < ta + minTimeBetweenSessionRefreshes \<longrightarrow>
      finderQueries (fst (refreshSessions d False ta ta' founda sm)) = Suc (finderQueries sm)
      \<and> refreshSessions d False tb tb' foundb (fst (refreshSessions d False ta ta' founda sm))
          = (fst (refreshSessions d False ta ta' founda sm), Inr ()))
   \<and> finderQueries (fst (refreshSessions d True ta ta' founda sm)) = Suc (finderQueries sm)"
proof -
  have force: "finderQueries (fst (refreshSessions d True ta ta' founda sm)) = Suc (finderQueries sm)"
    by (simp add: refreshSessions_queries)
  have cool: "finderQueries (fst (refreshSessions d False ta ta' founda sm)) = Suc (finderQueries sm)
      \<and> refreshSessions d False tb tb' foundb (fst (refreshSessions d False ta ta' founda sm))
          = (fst (refreshSessions d False ta ta' founda sm), Inr ())"
    if g: "\<not> lastSessionRefresh sm + minTimeBetweenSessionRefreshes > ta"
      and m: "ta \<le> ta'" and w: "tb < ta + minTimeBetweenSessionRefreshes"
  proof -
    let ?sm1 = "fst (refreshSessions d False ta ta' founda sm)"
    have q: "finderQueries ?sm1 = Suc (finderQueries sm)"
      using g by (simp add: refreshSessions_queries)
    have l: "lastSessionRefresh ?sm1 = ta'"
      using g by (simp add: refreshSessions_queries)
    have "lastSessionRefresh ?sm1 + minTimeBetweenSessionRefreshes > tb"
      using l m w by simp
    then have "refreshSessions d False tb tb' foundb ?sm1 = (?sm1, Inr ())"
      by (simp add: refreshSessions_def)
    with q show ?thesis by simp
  qed
  from force cool show ?thesis by blast
qed

text \<open>The registry populated at 1 s: a refresh at 7 s queries, one at 9 s does not; a
  forced one does.\<close>

theorem C7_refresh_cooldown_witness:
  "finderQueries populatedSessionMap = 1
   \<and> finderQueries (fst (refreshSessions exampleDeej False 7000000000 7000000001
        (Inr exampleSessions) populatedSessionMap)) = 2
   \<and> refreshSessions exampleDeej False 9000000000 9000000001 (Inl ''gone'')
        (fst (refreshSessions exampleDeej False 7000000000 7000000001
           (Inr exampleSessions) populatedSessionMap))
      = (fst (refreshSessions exampleDeej False 7000000000 7000000001
           (Inr exampleSessions) populatedSessionMap), Inr ())
   \<and> finderQueries (fst (refreshSessions exampleDeej True 7000000000 7000000001
        (Inr exampleSessions) populatedSessionMap)) = 2"
proof -
  have l: "lastSessionRefresh populatedSessionMap = 1000000000"
    by (rule populated_fields)
  have q: "finderQueries populatedSessionMap = 1"
    by (rule populated_fields)
  have g: "\<not> lastSessionRefresh populatedSessionMap + minTimeBetweenSessionRefreshes > 7000000000"
    by (simp add: l minTimeBetweenSessionRefreshes_def)
  have w: "(9000000000::int) < 7000000000 + minTimeBetweenSessionRefreshes"
    by (simp add: minTimeBetweenSessionRefreshes_def)
  have m: "(7000000000::int) \<le> 7000000001"
    by simp
  note c = C7_refresh_cooldown [where sm = populatedSessionMap and ta = 7000000000
      and ta' = 7000000001 and tb = 9000000000 and tb' = 9000000001 and d = exampleDeej
      and founda = "Inr exampleSessions" and foundb = "Inl ''gone''"]
  from c g w m q show ?thesis
    by (simp only: simp_thms)
qed


lemma populated_sessions:
  "m_sessions populatedSessionMap =
     [(''master'', [\<lparr>Key = ''master'', Volume = 1\<rparr>]),
      (''spotify.exe'', [\<lparr>Key = ''spotify.exe'', Volume = 1 / 2\<rparr>]),
      (''chrome.exe'', [\<lparr>Key = ''chrome.exe'', Volume = 1 / 2\<rparr>]),
      (''speakers (realtek audio)'', [\<lparr>Key = ''speakers (realtek audio)'', Volume = 1\<rparr>])]"
  "released populatedSessionMap = []"
  by code_simp+

lemma clearLoop_concat: "clearLoop mp rel = rel @ concat (map snd mp)"
  by (induction mp rel rule: clearLoop.induct) auto

text \<open>
  C2, as the claim states it: after a refresh whose query fails the registry still has
  its previous contents.  The code clears the map in every refresh that passes its guard,
  whatever the query then returns: the populated example registry has a \<^verbatim>\<open>master\<close>
  entry before a failing forced refresh and none after.
\<close>

theorem C2_counterexample:
  "sessionMap_get (fst (refreshSessions exampleDeej True 2000000000 2000000000 (Inl ''gone'')
      populatedSessionMap)) ''master''
   \<noteq> sessionMap_get populatedSessionMap ''master''"
  by (simp add: populated_sessions refreshSessions_def getAndAddSessions_def
      sessionMap_clear_def sessionMap_get_def)

lemma resolve_unmapped:
  "resolveTarget d sm ''deej.unmapped'' = getUnmappedSessionKeys sm"
proof -
  have "isASCII ''deej.unmapped''" "map lowerChar ''deej.unmapped'' = ''deej.unmapped''"
    by code_simp+
  then have a: "ToLower u ''deej.unmapped'' = ''deej.unmapped''" for u
    by (simp only: ToLower_def if_True)
  have b: "targetHasSpecialTransform ''deej.unmapped''"
    by code_simp
  have c: "TrimPrefix ''deej.unmapped'' specialTargetTransformPrefix = ''unmapped''"
    by code_simp
  show ?thesis
    by (simp add: resolveTarget_def a b c applyTargetTransform_def
        specialTargetCurrentWindow_def specialTargetAllUnmapped_def)
qed

text \<open>
  C2, amended: when a refresh passes its guard and the query fails, the failure is
  logged (by \<^verbatim>\<open>getAndAddSessions\<close> and by \<^verbatim>\<open>refreshSessions\<close>) and the registry does not
  keep its previous contents: \<^verbatim>\<open>Release\<close> has been called on every session it had cached
  and every key is removed, no session is recorded as unmapped and the refresh time is
  updated; looking any key up returns not-found, and \<^verbatim>\<open>deej.unmapped\<close> resolves to
  nothing.  Nothing panics.
\<close>

theorem C2_failed_refresh_empties_registry:
  assumes "force \<or> \<not> lastSessionRefresh sm + minTimeBetweenSessionRefreshes > now"
  shows "refreshSessions d force now now' (Inl err) sm =
           (sm\<lparr>m_sessions := [], lastSessionRefresh := now', unmappedSessions := [],
               released := released sm @ concat (map snd (m_sessions sm)),
               warnings := warnings sm @ [''Failed to get sessions from session finder'',
                                          ''Failed to re-acquire all audio sessions''],
               finderQueries := Suc (finderQueries sm)\<rparr>, Inr ())
         \<and> sessionMap_get (fst (refreshSessions d force now now' (Inl err) sm)) key = ([], False)
         \<and> resolveTarget d (fst (refreshSessions d force now now' (Inl err) sm)) ''deej.unmapped'' = []"
  using assms
  by (auto simp: refreshSessions_def getAndAddSessions_def sessionMap_clear_def sessionMap_get_def
      resolve_unmapped getUnmappedSessionKeys_def clearLoop_concat)

text \<open>The populated example registry, on a failing forced refresh at 2 s: its four
  sessions are released, \<^verbatim>\<open>master\<close> is no longer found, two warnings are logged.\<close>

theorem C2_failed_refresh_witness:
  "sessionMap_get populatedSessionMap ''master'' = ([\<lparr>Key = ''master'', Volume = 1\<rparr>], True)
   \<and> sessionMap_get (fst (refreshSessions exampleDeej True 2000000000 2000000000 (Inl ''gone'')
        populatedSessionMap)) ''master'' = ([], False)
   \<and> released (fst (refreshSessions exampleDeej True 2000000000 2000000000 (Inl ''gone'')
        populatedSessionMap)) = exampleSessions
   \<and> warnings (fst (refreshSessions exampleDeej True 2000000000 2000000000 (Inl ''gone'')
        populatedSessionMap)) = warnings populatedSessionMap @ [''Failed to get sessions from session finder'',
                                          ''Failed to re-acquire all audio sessions'']"
  using C2_failed_refresh_empties_registry [where force = True and sm = populatedSessionMap
      and now = 2000000000 and now' = 2000000000 and d = exampleDeej and err = "''gone''"
      and key = "''master''"]
  by (simp add: sessionMap_get_def populated_sessions exampleSessions_def)

section \<open>The session map: unmapped sessions\<close>

text \<open>
  C9.  The claim: \<^verbatim>\<open>deej.unmapped\<close> resolves to the keys of the sessions that are not
  reserved, not devices and not equal to a lowercased literal target.  With the special
  target written \<^verbatim>\<open>Deej.unmapped\<close> in the configuration and one session \<^verbatim>\<open>chrome.exe\<close>,
  that is the key \<^verbatim>\<open>chrome.exe\<close>.  The code: \<^verbatim>\<open>sessionMapped\<close> tests the target as
  configured for the \<^verbatim>\<open>deej.\<close> prefix and does not find it; \<^verbatim>\<open>resolveTarget\<close> lowercases
  first, finds the prefix and resolves to the unmapped keys recorded so far, of which
  there are none; element 0 of that empty result is taken, and the population of the
  registry ends in a panic.
\<close>

theorem C9_capital_special_target_panics:
  "snd (getAndAddSessions capitalDeej 1000000000 (Inr [chromeSession]) newSessionMap)
     = Inl IndexOutOfRange
   \<and> map Key (filter (\<lambda>s. unmappedBySpec capitalDeej (Key s)) [chromeSession]) = [''chrome.exe'']
   \<and> targetHasSpecialTransform ''Deej.unmapped'' = False
   \<and> resolveTarget capitalDeej newSessionMap ''Deej.unmapped'' = []"
  by code_simp

text \<open>
  On the configurations in which no target gains the \<^verbatim>\<open>deej.\<close> prefix by lowercasing
  alone, the code does what the claim says: a population of the registry from the
  sessions found succeeds, and afterwards \<^verbatim>\<open>deej.unmapped\<close> resolves to exactly the keys,
  in order of discovery, of the sessions whose key is not reserved, does not match the
  device pattern and is not a lowercased literal target of the mapping.
\<close>

lemma resolve_literal:
  "\<not> targetHasSpecialTransform (ToLower (unicodeToLower d) t) \<Longrightarrow>
   resolveTarget d sm t = [ToLower (unicodeToLower d) t]"
  by (simp add: resolveTarget_def)

lemma special_prefix: "targetHasSpecialTransform t = HasPrefix t ''deej.''"
  by (simp add: targetHasSpecialTransform_def specialTargetTransformPrefix_def)

lemma targetsLoop_literal:
  "list_all (\<lambda>t. targetHasSpecialTransform (ToLower (unicodeToLower d) t)
                  \<longrightarrow> targetHasSpecialTransform t) ts \<Longrightarrow>
   targetsLoop d sm key ts =
     Inr (key \<in> set (map (ToLower (unicodeToLower d))
                       (filter (\<lambda>t. \<not> HasPrefix t ''deej.'') ts)))"
proof (induction ts)
  case Nil
  show ?case by simp
next
  case (Cons t ts)
  show ?case
  proof (cases "targetHasSpecialTransform t")
    case True
    with Cons show ?thesis by (simp add: special_prefix)
  next
    case False
    with Cons.prems have "\<not> targetHasSpecialTransform (ToLower (unicodeToLower d) t)" by auto
    with False Cons show ?thesis by (auto simp: resolve_literal special_prefix)
  qed
qed

lemma iterate_literal:
  "list_all (\<lambda>t. targetHasSpecialTransform (ToLower (unicodeToLower d) t)
                  \<longrightarrow> targetHasSpecialTransform t) (concat (map snd mp)) \<Longrightarrow>
   sliderMap_iterate d sm key mp matchFound =
     Inr (matchFound \<or> key \<in> set (map (ToLower (unicodeToLower d))
                       (filter (\<lambda>t. \<not> HasPrefix t ''deej.'') (concat (map snd mp)))))"
proof (induction mp arbitrary: matchFound)
  case Nil
  show ?case by simp
next
  case (Cons e mp)
  obtain i ts where e: "e = (i, ts)" by (cases e)
  from Cons.prems
  have a: "list_all (\<lambda>t. targetHasSpecialTransform (ToLower (unicodeToLower d) t)
                          \<longrightarrow> targetHasSpecialTransform t) ts"
    and b: "list_all (\<lambda>t. targetHasSpecialTransform (ToLower (unicodeToLower d) t)
                          \<longrightarrow> targetHasSpecialTransform t) (concat (map snd mp))"
    by (simp_all add: e)
  show ?case
    using Cons.IH [OF b] targetsLoop_literal [OF a, of sm key]
    by (auto simp: e)
qed

lemma sessionMapped_spec:
  "specialTargetsPrefixed d \<Longrightarrow> sessionMapped d sm s = Inr (\<not> unmappedBySpec d (Key s))"
  by (simp add: sessionMapped_def iterate_literal specialTargetsPrefixed_def unmappedBySpec_def
      literalTargets_def masterSessionName_def systemSessionName_def inputSessionName_def)

lemma addLoop_spec:
  "specialTargetsPrefixed d \<Longrightarrow>
   snd (addLoop d ss sm) = Inr ()
   \<and> unmappedSessions (fst (addLoop d ss sm)) =
       unmappedSessions sm @ filter (\<lambda>s. unmappedBySpec d (Key s)) ss"
proof (induction ss arbitrary: sm)
  case Nil
  show ?case by simp
next
  case (Cons s ss)
  show ?case
    using Cons.IH [OF Cons.prems, of "sessionMap_add sm s"]
      Cons.IH [OF Cons.prems, of "(sessionMap_add sm s)\<lparr>unmappedSessions := unmappedSessions (sessionMap_add sm s) @ [s]\<rparr>"]
    by (simp add: sessionMapped_spec [OF Cons.prems] Let_def)
qed

lemma unmapped_resolution_prefixed:
  assumes "specialTargetsPrefixed d"
  shows "snd (getAndAddSessions d now (Inr sessions) sm) = Inr None
         \<and> resolveTarget d' (fst (getAndAddSessions d now (Inr sessions) sm)) ''deej.unmapped''
             = map Key (filter (\<lambda>s. unmappedBySpec d (Key s)) sessions)"
proof -
  let ?sm1 = "sm\<lparr>lastSessionRefresh := now, unmappedSessions := [],
                finderQueries := Suc (finderQueries sm)\<rparr>"
  from addLoop_spec [OF assms, of sessions ?sm1] show ?thesis
    by (cases "addLoop d sessions ?sm1")
      (auto simp: getAndAddSessions_def resolve_unmapped getUnmappedSessionKeys_def)
qed

lemma example_prefixed: "specialTargetsPrefixed exampleDeej"
  by code_simp

lemma example_unmapped:
  "map Key (filter (\<lambda>s. unmappedBySpec exampleDeej (Key s)) exampleSessions) = [''chrome.exe'']"
  by code_simp

lemma unmapped_resolution_example:
  "resolveTarget exampleDeej
     (fst (getAndAddSessions exampleDeej 1000000000 (Inr exampleSessions) newSessionMap))
     ''deej.unmapped'' = [''chrome.exe'']"
  using unmapped_resolution_prefixed [OF example_prefixed, where now = 1000000000
      and sessions = exampleSessions and sm = newSessionMap and d' = exampleDeej]
  by (simp only: example_unmapped simp_thms)

section \<open>The merge of the two slider mappings\<close>

lemma map_of_sliderMap_set: "map_of (sliderMap_set mp k v) = (map_of mp)(k \<mapsto> v)"
  by (induction mp k v rule: sliderMap_set.induct) auto

lemma map_of_parsed_None:
  "i \<notin> fst ` set (parsedEntries u) \<Longrightarrow> map_of (parsedEntries u) i = None"
  by (simp add: map_of_eq_None_iff)

lemma userLoop_map_of:
  "distinct (map fst (parsedEntries u)) \<Longrightarrow>
   map_of (userLoop u acc) i =
     (case map_of (parsedEntries u) i of
        Some ts \<Rightarrow> Some (filter (\<lambda>s. s \<noteq> []) ts)
      | None \<Rightarrow> map_of acc i)"
proof (induction u arbitrary: acc)
  case Nil
  show ?case by simp
next
  case (Cons e u)
  obtain k ts where e: "e = (k, ts)" by (cases e)
  show ?case
  proof (cases "Atoi k")
    case None
    with Cons e show ?thesis by simp
  next
    case (Some j)
    with Cons.prems e have d: "distinct (map fst (parsedEntries u))"
      and n: "j \<notin> fst ` set (parsedEntries u)"
      by simp_all
    show ?thesis
      using Cons.IH [OF d, of "sliderMap_set acc j (filter (\<lambda>s. s \<noteq> []) ts)"]
        map_of_parsed_None [OF n]
      by (auto simp: e Some map_of_sliderMap_set split: option.splits)
  qed
qed

lemma internalLoop_map_of:
  "distinct (map fst (parsedEntries n)) \<Longrightarrow>
   map_of (internalLoop n acc) i =
     (case map_of (parsedEntries n) i of
        None \<Rightarrow> map_of acc i
      | Some ts \<Rightarrow>
          Some (fst (sliderMap_get acc i)
                @ filter (\<lambda>s. s \<noteq> [] \<and> s \<notin> set (fst (sliderMap_get acc i))) ts))"
proof (induction n arbitrary: acc)
  case Nil
  show ?case by simp
next
  case (Cons e n)
  obtain k ts where e: "e = (k, ts)" by (cases e)
  show ?case
  proof (cases "Atoi k")
    case None
    with Cons e show ?thesis by simp
  next
    case (Some j)
    with Cons.prems e have d: "distinct (map fst (parsedEntries n))"
      and nj: "j \<notin> fst ` set (parsedEntries n)"
      by simp_all
    let ?ex = "fst (sliderMap_get acc j)"
    let ?acc' = "sliderMap_set acc j (?ex @ filter (\<lambda>s. s \<noteq> [] \<and> s \<notin> set ?ex) ts)"
    have g: "i \<noteq> j \<Longrightarrow> sliderMap_get ?acc' i = sliderMap_get acc i"
      by (simp add: sliderMap_get_def map_of_sliderMap_set)
    show ?thesis
      using Cons.IH [OF d, of ?acc'] map_of_parsed_None [OF nj] g
      by (cases "i = j") (auto simp: e Some map_of_sliderMap_set Let_def split: option.splits)
  qed
qed

lemma merge_law:
  assumes "distinct (map fst (parsedEntries userMapping))"
    and "distinct (map fst (parsedEntries internalMapping))"
  shows "map_of (sliderMapFromConfigs userMapping internalMapping) i
         = mergedTargets userMapping internalMapping i"
proof -
  have u: "map_of (userLoop userMapping newSliderMap) i =
      (case map_of (parsedEntries userMapping) i of
         Some ts \<Rightarrow> Some (filter (\<lambda>s. s \<noteq> []) ts) | None \<Rightarrow> None)"
    using userLoop_map_of [OF assms(1), of newSliderMap i]
    by (auto simp: newSliderMap_def split: option.splits)
  show ?thesis
    unfolding sliderMapFromConfigs_def mergedTargets_def
    using internalLoop_map_of [OF assms(2), of "userLoop userMapping newSliderMap" i] u
    by (auto simp: sliderMap_get_def split: option.splits intro!: filter_cong)
qed

text \<open>The example of the specification.\<close>

lemma merge_example:
  "sliderMapFromConfigs [(''0'', [''a'', ''''])] [(''0'', [''b''])] = [(0, [''a'', ''b''])]"
  by code_simp

text \<open>
  C6.  The user mapping \<^verbatim>\<open>{"0": ["a", ""]}\<close> and the internal mapping \<^verbatim>\<open>{"0": ["b"]}\<close>
  merge into index 0 with targets \<^verbatim>\<open>["a", "b"]\<close>.  In general, for two mappings in each
  of which no two keys parse to the same index: an index is present exactly when a key
  of either mapping parses to it (keys that do not parse are dropped), and its targets
  are the user's without the empty strings, followed by the internal ones that are not
  empty and not among the user's.
\<close>

theorem C6_merge_law:
  "sliderMapFromConfigs [(''0'', [''a'', ''''])] [(''0'', [''b''])] = [(0, [''a'', ''b''])]
   \<and> (distinct (map fst (parsedEntries userMapping)) \<longrightarrow>
      distinct (map fst (parsedEntries internalMapping)) \<longrightarrow>
      sliderMap_get (sliderMapFromConfigs userMapping internalMapping) i
        = (case mergedTargets userMapping internalMapping i of
             Some ts \<Rightarrow> (ts, True) | None \<Rightarrow> ([], False)))"
  using merge_example merge_law [of userMapping internalMapping i]
  by (simp add: sliderMap_get_def)

lemma ex_distinct:
  "distinct (map fst (parsedEntries [(''0'', [''a'', '''']), (''x'', [''c'']), (''2'', [''e''])]))"
  "distinct (map fst (parsedEntries [(''0'', [''b'', ''a'', '''']), (''1'', [''d'']), (''y'', [''f''])]))"
  by code_simp+

lemma ex_merged:
  "mergedTargets [(''0'', [''a'', '''']), (''x'', [''c'']), (''2'', [''e''])]
     [(''0'', [''b'', ''a'', '''']), (''1'', [''d'']), (''y'', [''f''])] 0 = Some [''a'', ''b'']"
  by code_simp

theorem C6_merge_law_witness:
  "sliderMap_get (sliderMapFromConfigs [(''0'', [''a'', '''']), (''x'', [''c'']), (''2'', [''e''])]
     [(''0'', [''b'', ''a'', '''']), (''1'', [''d'']), (''y'', [''f''])]) 0 = ([''a'', ''b''], True)"
  using C6_merge_law [where userMapping = "[(''0'', [''a'', '''']), (''x'', [''c'']), (''2'', [''e''])]"
      and internalMapping = "[(''0'', [''b'', ''a'', '''']), (''1'', [''d'']), (''y'', [''f''])]" and i = 0]
    ex_distinct
  by (simp only: ex_merged simp_thms option.case)

end
